theory Spec2Isabelle
  imports
    Complex_Main
    "HOL-Library.AList"
    "HOL-Library.Sublist"
    "HOL-Library.Char_ord"
    "HOL-Library.List_Lexorder"
begin

section \<open>The football prediction league: scoring and standings\<close>

text \<open>
  This theory embeds the scoring and standings code of \<^verbatim>\<open>footyfun/models.py\<close>:
  the two scoring classes \<^verbatim>\<open>FootyPoints\<close> and \<^verbatim>\<open>EggPoints\<close>, the aggregation function
  \<^verbatim>\<open>process_predictions\<close>, the persisted \<^verbatim>\<open>PointInfo\<close> records with the \<^verbatim>\<open>Statto\<close>
  operations \<^verbatim>\<open>update_points\<close>, \<^verbatim>\<open>cummulate\<close> and \<^verbatim>\<open>stats\<close>, and the two table builders
  \<^verbatim>\<open>create_table\<close> and \<^verbatim>\<open>FastTablePage.get\<close>.

  Conventions of the embedding.
  \<^item> Python's \<^verbatim>\<open>int\<close> scores are \<open>int\<close>. The point fields are Python floats that only
    ever hold sums and differences of small multiples of the quantum; they are modelled
    as \<open>real\<close>, so rounding is not part of the model.
  \<^item> A \<^verbatim>\<open>date\<close> is its day ordinal, an \<open>int\<close>; adding \<^verbatim>\<open>timedelta(days=1)\<close> adds 1.
    A \<^verbatim>\<open>datetime\<close> is a number of microseconds, midnight of day \<open>d\<close> being
    \<open>d * usec_per_day\<close>.
  \<^item> A competitor is identified by its nickname, the key of every dictionary of the
    source; a league and a competition by a number.
  \<^item> A Python dictionary is an association list with distinct keys, a key keeping its
    place when its value is replaced.
  \<^item> Exceptions are values of the type \<open>error\<close>.
\<close>

datatype error = KeyError | ZeroDivisionError

subsection \<open>Scores and tallies\<close>

text \<open>Both \<^verbatim>\<open>Game\<close> and \<^verbatim>\<open>Prediction\<close> carry \<^verbatim>\<open>ascore\<close> and \<^verbatim>\<open>bscore\<close>, default -1.\<close>

record scoreline =
  ascore :: int
  bscore :: int

text \<open>The five point fields shared by \<^verbatim>\<open>FootyPoints\<close> and \<^verbatim>\<open>PointInfo\<close>.\<close>

record tally =
  perfect :: real
  goal_difference :: real
  goals :: real
  result :: real
  count :: real

text \<open>The dictionary returned by \<^verbatim>\<open>calculate_averages\<close>: the five keys of a tally and
  \<^verbatim>\<open>total\<close>.\<close>

record averages = tally +
  total :: real

text \<open>
  An object of class \<^verbatim>\<open>FootyPoints\<close> or of its subclass \<^verbatim>\<open>EggPoints\<close>. The attributes
  \<^verbatim>\<open>total\<close> and \<^verbatim>\<open>ppp\<close> do not exist until \<^verbatim>\<open>set_total\<close> assigns them: \<open>None\<close> is the
  missing attribute.
\<close>

datatype points_class = FootyPointsClass | EggPointsClass

record FootyPoints = tally +
  cls :: points_class
  total :: "real option"
  ppp :: "real option"

definition FootyPoints_init :: "points_class \<Rightarrow> FootyPoints" where
  "FootyPoints_init c =
     \<lparr>perfect = 0, goal_difference = 0, goals = 0, result = 0, count = 0,
      cls = c, total = None, ppp = None\<rparr>"

text \<open>\<^verbatim>\<open>Points(competition)\<close>: an \<^verbatim>\<open>EggPoints\<close> when the name contains \<^verbatim>\<open>egg\<close>.\<close>

definition Points :: "string \<Rightarrow> FootyPoints" where
  "Points competition =
     (if sublist ''egg'' competition then FootyPoints_init EggPointsClass
      else FootyPoints_init FootyPointsClass)"

text \<open>\<^verbatim>\<open>initialise\<close> copies the five fields; defined alike in both classes of the source.\<close>

definition initialise :: "('a tally_scheme) \<Rightarrow> ('b tally_scheme) \<Rightarrow> ('a tally_scheme)" where
  "initialise self points =
     self\<lparr>perfect := perfect points, goal_difference := goal_difference points,
          goals := goals points, result := result points, count := count points\<rparr>"

definition set_total :: "FootyPoints \<Rightarrow> FootyPoints" where
  "set_total self =
     (let t = goals self + goal_difference self + perfect self + result self;
          self = self\<lparr>total := Some t\<rparr>
      in if count self > 0 then self\<lparr>ppp := Some (t / count self)\<rparr> else self)"

text \<open>
  \<^verbatim>\<open>calculate_averages\<close> calls \<^verbatim>\<open>set_total\<close> and then divides by \<^verbatim>\<open>float(self.count)\<close>;
  Python raises \<^verbatim>\<open>ZeroDivisionError\<close> on a float division by zero.
\<close>

definition calculate_averages :: "FootyPoints \<Rightarrow> error + averages" where
  "calculate_averages self =
     (let self = set_total self;
          c = count self
      in if c = 0 then Inl ZeroDivisionError
         else Inr \<lparr>perfect = perfect self / c, goal_difference = goal_difference self / c,
                   goals = goals self / c, result = result self / c, count = c,
                   averages.total = (goals self + goal_difference self + perfect self + result self) / c\<rparr>)"

subsection \<open>The two scoring rules\<close>

definition FootyPoints_update ::
  "('a tally_scheme) \<Rightarrow> ('b scoreline_scheme) \<Rightarrow> ('c scoreline_scheme) \<Rightarrow> real \<Rightarrow> ('a tally_scheme)" where
  "FootyPoints_update self prediction res quantum =
     (let self = self\<lparr>count := count self + 1\<rparr>;
          pa = ascore prediction; pb = bscore prediction;
          a = ascore res; b = bscore res;
          self = (if pa = a then self\<lparr>goals := goals self + quantum\<rparr> else self);
          self = (if pb = b then self\<lparr>goals := goals self + quantum\<rparr> else self);
          self = (if pb - pa = b - a
                  then self\<lparr>goal_difference := goal_difference self + quantum\<rparr> else self);
          self = (if pa = a \<and> pb = b then self\<lparr>perfect := perfect self + quantum\<rparr> else self)
      in if (pa > pb \<and> a > b) \<or> (pa < pb \<and> a < b) \<or> (pa = pb \<and> a = b)
         then self\<lparr>result := result self + 2 * quantum\<rparr> else self)"

definition tolerance :: int where
  "tolerance = 3"

definition EggPoints_update ::
  "('a tally_scheme) \<Rightarrow> ('b scoreline_scheme) \<Rightarrow> ('c scoreline_scheme) \<Rightarrow> real \<Rightarrow> ('a tally_scheme)" where
  "EggPoints_update self prediction res quantum =
     (let self = self\<lparr>count := count self + 1\<rparr>;
          tolerance1 = tolerance + 1;
          delta = \<bar>ascore prediction - ascore res\<bar>;
          self = (if delta \<le> tolerance
                  then self\<lparr>goals := goals self + quantum * of_int (tolerance1 - delta)\<rparr>
                  else self);
          delta = \<bar>bscore prediction - bscore res\<bar>;
          self = (if delta \<le> tolerance
                  then self\<lparr>goals := goals self + quantum * of_int (tolerance1 - delta)\<rparr>
                  else self);
          delta = \<bar>(bscore prediction - ascore prediction) - (bscore res - ascore res)\<bar>;
          self = (if delta \<le> tolerance
                  then self\<lparr>goal_difference :=
                         goal_difference self + quantum * of_int (tolerance1 - delta)\<rparr>
                  else self);
          delta = \<bar>ascore prediction - ascore res\<bar> + \<bar>bscore prediction - bscore res\<bar>;
          self = (if delta \<le> tolerance
                  then self\<lparr>perfect := perfect self + quantum * of_int (tolerance1 - delta)\<rparr>
                  else self)
      in if (ascore prediction > bscore prediction \<and> ascore res > bscore res) \<or>
            (ascore prediction < bscore prediction \<and> ascore res < bscore res) \<or>
            (ascore prediction = bscore prediction \<and> ascore res = bscore res)
         then self\<lparr>result := result self + 2 * quantum\<rparr> else self)"

text \<open>The method call \<^verbatim>\<open>points.update(...)\<close> dispatches on the class of the object.\<close>

definition update ::
  "FootyPoints \<Rightarrow> ('b scoreline_scheme) \<Rightarrow> ('c scoreline_scheme) \<Rightarrow> real \<Rightarrow> FootyPoints" where
  "update self prediction res quantum =
     (case cls self of
        FootyPointsClass \<Rightarrow> FootyPoints_update self prediction res quantum
      | EggPointsClass \<Rightarrow> EggPoints_update self prediction res quantum)"

subsection \<open>Notions used to state the scoring claims\<close>

text \<open>The outcome category of a pair of scores, home score first.\<close>

datatype outcome = HomeWin | AwayWin | Draw

definition category :: "int \<Rightarrow> int \<Rightarrow> outcome" where
  "category a b = (if a > b then HomeWin else if a < b then AwayWin else Draw)"

text \<open>The linearly decaying credit of the tolerance-based rule.\<close>

definition credit :: "real \<Rightarrow> int \<Rightarrow> real" where
  "credit q delta = (if delta \<le> tolerance then q * of_int (tolerance + 1 - delta) else 0)"

text \<open>Swapping the home and away labels of a prediction or of a result.\<close>

definition swap_sides :: "('a scoreline_scheme) \<Rightarrow> ('a scoreline_scheme)" where
  "swap_sides x = x\<lparr>ascore := bscore x, bscore := ascore x\<rparr>"

section \<open>Games, predictions and leagues\<close>

text \<open>
  A \<^verbatim>\<open>Prediction\<close> belongs to a league (its key) and a competitor (the nickname); the game
  it predicts is the one whose \<^verbatim>\<open>prediction_set\<close> holds it.
\<close>

record Prediction = scoreline +
  league :: nat
  competitor :: string

text \<open>
  A \<^verbatim>\<open>Game\<close>: the key of its competition, the kick-off time and the back-reference
  \<^verbatim>\<open>prediction_set\<close>. Team names and the detail text play no part in scoring.
\<close>

record Game = scoreline +
  competition :: nat
  matchtime :: int
  prediction_set :: "Prediction list"

record Competition =
  key :: nat
  name :: string

text \<open>
  A \<^verbatim>\<open>League\<close>: its key, its competition, the cursor \<^verbatim>\<open>date\<close> up to which totals have
  been cumulated, and the nicknames of its \<^verbatim>\<open>competitor_set\<close>.
\<close>

record League =
  key :: nat
  competition :: Competition
  date :: int
  competitor_set :: "string list"

definition usec_per_day :: int where
  "usec_per_day = 86400000000"

text \<open>\<^verbatim>\<open>datetime.fromordinal(day.toordinal())\<close>: midnight at the start of the day.\<close>

definition fromordinal :: "int \<Rightarrow> int" where
  "fromordinal day = day * usec_per_day"

text \<open>\<^verbatim>\<open>league.competition.game_set\<close>, out of all stored games.\<close>

definition game_set :: "Game list \<Rightarrow> League \<Rightarrow> Game list" where
  "game_set all_games lg =
     [g \<leftarrow> all_games. Game.competition g = Competition.key (League.competition lg)]"

subsection \<open>Aggregating predictions\<close>

text \<open>One entry of the \<^verbatim>\<open>details\<close> list; its other keys repeat fields of these.\<close>

record detail =
  points :: FootyPoints
  game :: Game
  preda :: int
  premodels :: int
  punter :: string

definition quantum :: real where
  "quantum = 1"

text \<open>The body of the inner loop of \<^verbatim>\<open>process_predictions\<close>.\<close>

definition score_prediction ::
  "string \<Rightarrow> bool \<Rightarrow> Game \<Rightarrow> Prediction \<Rightarrow>
   (string \<times> FootyPoints) list \<times> detail list \<Rightarrow> (string \<times> FootyPoints) list \<times> detail list" where
  "score_prediction cname do_details res prediction acc =
     (let (scs, dts) = acc;
          who = Prediction.competitor prediction;
          pts = (case map_of scs who of None \<Rightarrow> Points cname | Some p \<Rightarrow> p);
          scs = AList.update who (update pts prediction res quantum) scs
      in if \<not> do_details then (scs, dts)
         else (let pts = set_total (update (Points cname) prediction res quantum)
               in (scs, dts @ [\<lparr>points = pts, game = res,
                     preda = ascore prediction, premodels = bscore prediction,
                     punter = who\<rparr>])))"

definition process_predictions ::
  "Game list \<Rightarrow> League \<Rightarrow> bool \<Rightarrow> (string \<times> FootyPoints) list \<times> detail list" where
  "process_predictions results lg do_details =
     (let cname = name (League.competition lg)
      in fold (\<lambda>res acc.
           fold (score_prediction cname do_details res)
             [p \<leftarrow> prediction_set res. Prediction.league p = League.key lg] acc)
         results ([], []))"

subsection \<open>The slow table\<close>

datatype attr_error = AttributeError

text \<open>
  One row of a table: the dictionary with the keys \<^verbatim>\<open>total\<close>, \<^verbatim>\<open>sort\<close>, \<^verbatim>\<open>points\<close> and
  \<^verbatim>\<open>nickname\<close>. Reading \<^verbatim>\<open>points.total\<close> fails on an object that never went through
  \<^verbatim>\<open>set_total\<close>.
\<close>

record table_row =
  total :: real
  sort :: "real \<times> real \<times> real \<times> real \<times> string"
  points :: FootyPoints
  nickname :: string

definition table_entry :: "string \<Rightarrow> FootyPoints \<Rightarrow> attr_error + table_row" where
  "table_entry pu pts =
     (case FootyPoints.total pts of
        None \<Rightarrow> Inl AttributeError
      | Some t \<Rightarrow> Inr \<lparr>total = t,
                       sort = (t, perfect pts, goal_difference pts, goals pts, pu),
                       points = pts, nickname = pu\<rparr>)"

record table =
  scores :: "table_row list"
  details :: "detail list"

text \<open>The loop of \<^verbatim>\<open>create_table\<close> that keeps the games with \<^verbatim>\<open>game.ascore >= 0\<close>.\<close>

definition create_table_results :: "Game list \<Rightarrow> League \<Rightarrow> int \<Rightarrow> int \<Rightarrow> Game list" where
  "create_table_results all_games lg start end =
     (let games = [g \<leftarrow> game_set all_games lg. matchtime g \<ge> start \<and> matchtime g \<le> end]
      in [gm \<leftarrow> games. ascore gm \<ge> 0])"

text \<open>The loop of \<^verbatim>\<open>create_table\<close> over \<^verbatim>\<open>scores.iteritems()\<close>.\<close>

fun table_rows :: "(string \<times> FootyPoints) list \<Rightarrow> attr_error + table_row list" where
  "table_rows [] = Inr []"
| "table_rows ((pu, pts) # rest) =
     (case table_entry pu (set_total pts) of
        Inl e \<Rightarrow> Inl e
      | Inr row \<Rightarrow> (case table_rows rest of Inl e \<Rightarrow> Inl e | Inr rows \<Rightarrow> Inr (row # rows)))"

text \<open>
  \<^verbatim>\<open>create_table(league, start, end)\<close>; \<open>now\<close> is what \<^verbatim>\<open>get_now()\<close> returns, and
  \<^verbatim>\<open>datetime(2000,1,1)\<close> is midnight of day 730120. The timings are left out.
\<close>

definition create_table ::
  "Game list \<Rightarrow> int \<Rightarrow> League \<Rightarrow> int option \<Rightarrow> int option \<Rightarrow> attr_error + table" where
  "create_table all_games now lg start end =
     (let start = (case start of None \<Rightarrow> fromordinal 730120 | Some s \<Rightarrow> s);
          end = (case end of None \<Rightarrow> now | Some e \<Rightarrow> e);
          results = create_table_results all_games lg start end;
          (scs, dts) = process_predictions results lg True
      in case table_rows scs of
           Inl e \<Rightarrow> Inl e
         | Inr rows \<Rightarrow> Inr \<lparr>scores = rows, details = dts\<rparr>)"

section \<open>The persisted point records\<close>

record PointInfo = tally +
  date :: int
  competitor :: string
  league :: nat
  totals :: bool

definition reset :: "('a tally_scheme) \<Rightarrow> ('a tally_scheme)" where
  "reset self = self\<lparr>perfect := 0, goal_difference := 0, goals := 0, result := 0, count := 0\<rparr>"

definition add :: "('a tally_scheme) \<Rightarrow> ('b tally_scheme) \<Rightarrow> ('a tally_scheme)" where
  "add self pts =
     self\<lparr>perfect := perfect self + perfect pts,
          goal_difference := goal_difference self + goal_difference pts,
          goals := goals self + goals pts,
          result := result self + result pts,
          count := count self + count pts\<rparr>"

definition subtract :: "('a tally_scheme) \<Rightarrow> ('b tally_scheme) \<Rightarrow> ('a tally_scheme)" where
  "subtract self pts =
     self\<lparr>perfect := perfect self - perfect pts,
          goal_difference := goal_difference self - goal_difference pts,
          goals := goals self - goals pts,
          result := result self - result pts,
          count := count self - count pts\<rparr>"

text \<open>\<^verbatim>\<open>to_points\<close>; \<open>cname\<close> is \<^verbatim>\<open>self.league.competition.name\<close>.\<close>

definition to_points :: "string \<Rightarrow> PointInfo \<Rightarrow> FootyPoints" where
  "to_points cname self = set_total (initialise (Points cname) self)"

text \<open>\<^verbatim>\<open>PointInfo()\<close> with the three references assigned: every point field at its default 0.\<close>

definition new_PointInfo :: "nat \<Rightarrow> string \<Rightarrow> int \<Rightarrow> bool \<Rightarrow> PointInfo" where
  "new_PointInfo l who day t =
     \<lparr>perfect = 0, goal_difference = 0, goals = 0, result = 0, count = 0,
      date = day, competitor = who, league = l, totals = t\<rparr>"

subsection \<open>The datastore\<close>

text \<open>
  The stored \<^verbatim>\<open>PointInfo\<close> entities, each under its key, in the order a query returns
  them. Saving an entity that has no key yet appends it under a fresh key; saving one
  that has a key replaces it in place; deleting removes the key.
\<close>

type_synonym datastore = "(nat \<times> PointInfo) list"

definition fresh_key :: "datastore \<Rightarrow> nat" where
  "fresh_key store = Suc (fold max (map fst store) 0)"

definition save :: "nat option \<Rightarrow> PointInfo \<Rightarrow> datastore \<Rightarrow> datastore" where
  "save k info store =
     (case k of None \<Rightarrow> store @ [(fresh_key store, info)]
              | Some k \<Rightarrow> AList.update k info store)"

definition delete :: "nat \<Rightarrow> datastore \<Rightarrow> datastore" where
  "delete k store = AList.delete k store"

text \<open>
  \<^verbatim>\<open>PointInfo.all().filter('date =', d).filter('league =', l).filter('totals =', t)\<close>.
\<close>

definition PointInfo_query :: "int \<Rightarrow> nat \<Rightarrow> bool \<Rightarrow> datastore \<Rightarrow> (nat \<times> PointInfo) list" where
  "PointInfo_query d l t store =
     [(k, info) \<leftarrow> store. PointInfo.date info = d \<and> PointInfo.league info = l \<and> totals info = t]"

text \<open>
  A dictionary built from records by assigning \<^verbatim>\<open>d[info.competitor.nickname] = info\<close> in
  turn (or by \<^verbatim>\<open>dict\<close> from the list of pairs): a later record replaces an earlier one
  of the same nickname.
\<close>

definition by_nickname :: "(nat \<times> PointInfo) list \<Rightarrow> (string \<times> PointInfo) list" where
  "by_nickname pointinfo =
     fold (\<lambda>(k, info) d. AList.update (PointInfo.competitor info) info d) pointinfo []"

section \<open>Statto\<close>

subsection \<open>\<^verbatim>\<open>update_points\<close>\<close>

text \<open>\<^verbatim>\<open>_days_games\<close>: the games of every competition from midnight to midnight, both
  ends included.\<close>

definition days_games :: "Game list \<Rightarrow> int \<Rightarrow> Game list" where
  "days_games all_games day =
     (let tday = fromordinal day;
          tnextday = tday + usec_per_day
      in [g \<leftarrow> all_games. matchtime g \<ge> tday \<and> matchtime g \<le> tnextday])"

text \<open>The first loop of \<^verbatim>\<open>update_points\<close>.\<close>

definition update_points_games :: "Game list \<Rightarrow> int \<Rightarrow> Game list" where
  "update_points_games all_games day = [gm \<leftarrow> days_games all_games day. ascore gm \<ge> 0]"

text \<open>
  The loop that turns the day's records into the dictionary \<^verbatim>\<open>current\<close>, deleting every
  record whose nickname is already there.
\<close>

definition index_current ::
  "(nat \<times> PointInfo) list \<Rightarrow> datastore \<Rightarrow> (string \<times> nat \<times> PointInfo) list \<times> datastore" where
  "index_current pointinfo store =
     fold (\<lambda>(k, info) (current, store).
             let who = PointInfo.competitor info
             in if map_of current who \<noteq> None then (current, delete k store)
                else (AList.update who (k, info) current, store))
          pointinfo ([], store)"

text \<open>
  The loop over \<^verbatim>\<open>points.iteritems()\<close>. \<^verbatim>\<open>competitors[who]\<close> raises \<^verbatim>\<open>KeyError\<close> for a
  nickname that is not in the league's \<^verbatim>\<open>competitor_set\<close>.
\<close>

fun save_points ::
  "League \<Rightarrow> int \<Rightarrow> (string \<times> nat \<times> PointInfo) list \<Rightarrow> (string \<times> FootyPoints) list \<Rightarrow>
   datastore \<Rightarrow> error + datastore" where
  "save_points lg day current [] store = Inr store"
| "save_points lg day current ((who, pt) # rest) store =
     (case map_of current who of
        None \<Rightarrow>
          (if who \<in> set (competitor_set lg)
           then save_points lg day current rest
                  (save None (add (new_PointInfo (League.key lg) who day False) pt) store)
           else Inl KeyError)
      | Some (k, pinfo) \<Rightarrow>
          save_points lg day current rest (save (Some k) (add (reset pinfo) pt) store))"

text \<open>The last loop: the query is run again and every record of a nickname without
  points is deleted.\<close>

definition delete_unneeded ::
  "(string \<times> FootyPoints) list \<Rightarrow> (nat \<times> PointInfo) list \<Rightarrow> datastore \<Rightarrow> datastore" where
  "delete_unneeded pts pointinfo store =
     fold (\<lambda>(k, pinfo) store.
             if map_of pts (PointInfo.competitor pinfo) = None then delete k store else store)
          pointinfo store"

definition update_points :: "Game list \<Rightarrow> League \<Rightarrow> int \<Rightarrow> datastore \<Rightarrow> error + datastore" where
  "update_points all_games lg day store =
     (let games = update_points_games all_games day;
          (pts, junk) = process_predictions games lg False;
          pointinfo = PointInfo_query day (League.key lg) False;
          (current, store) = index_current (pointinfo store) store
      in case save_points lg day current pts store of
           Inl e \<Rightarrow> Inl e
         | Inr store \<Rightarrow> Inr (delete_unneeded pts (pointinfo store) store))"

text \<open>Calling \<^verbatim>\<open>update_points\<close> for the same day \<open>n\<close> times in a row.\<close>

fun update_points_times ::
  "nat \<Rightarrow> Game list \<Rightarrow> League \<Rightarrow> int \<Rightarrow> datastore \<Rightarrow> error + datastore" where
  "update_points_times 0 all_games lg day store = Inr store"
| "update_points_times (Suc n) all_games lg day store =
     (case update_points all_games lg day store of
        Inl e \<Rightarrow> Inl e
      | Inr store \<Rightarrow> update_points_times n all_games lg day store)"

subsection \<open>\<^verbatim>\<open>cummulate\<close>\<close>

text \<open>
  The loop over \<^verbatim>\<open>entered\<close>: a nickname without a running total gets a new one, whose
  competitor is read from \<^verbatim>\<open>pinfo[who]\<close> (a \<^verbatim>\<open>KeyError\<close> if there were none), and the day's
  points, if any, are added to the running total.
\<close>

fun add_entered ::
  "League \<Rightarrow> int \<Rightarrow> (string \<times> PointInfo) list \<Rightarrow> string list \<Rightarrow>
   (string \<times> PointInfo) list \<Rightarrow> error + (string \<times> PointInfo) list" where
  "add_entered lg current pinfo [] tots = Inr tots"
| "add_entered lg current pinfo (who # rest) tots =
     (case (case map_of tots who of
              None \<Rightarrow>
                (case map_of pinfo who of
                   None \<Rightarrow> Inl KeyError
                 | Some p \<Rightarrow>
                     (let tot = new_PointInfo (League.key lg) (PointInfo.competitor p)
                                    current True
                      in Inr (tot, AList.update who tot tots)))
            | Some tot \<Rightarrow> Inr (tot, tots)) of
        Inl e \<Rightarrow> Inl e
      | Inr (tot, tots) \<Rightarrow>
          add_entered lg current pinfo rest
            (case map_of pinfo who of
               None \<Rightarrow> tots
             | Some pts \<Rightarrow> AList.update who (add tot pts) tots))"

text \<open>The loop that saves a fresh total record for every running total.\<close>

definition save_totals :: "int \<Rightarrow> (string \<times> PointInfo) list \<Rightarrow> datastore \<Rightarrow> datastore" where
  "save_totals current tots store =
     fold (\<lambda>(who, tot) store.
             save None
               (initialise
                  (new_PointInfo (PointInfo.league tot) (PointInfo.competitor tot) current True)
                  tot)
               store)
          tots store"

text \<open>One round of the \<^verbatim>\<open>while\<close> loop, \<open>current\<close> being the day already moved on to.\<close>

definition cummulate_day ::
  "League \<Rightarrow> int \<Rightarrow> (string \<times> PointInfo) list \<times> datastore \<Rightarrow>
   error + (string \<times> PointInfo) list \<times> datastore" where
  "cummulate_day lg current st =
     (let (tots, store) = st;
          pointinfo = PointInfo_query current (League.key lg) False store;
          pinfo = by_nickname pointinfo;
          store = fold (\<lambda>(k, info) store. delete k store)
                    (PointInfo_query current (League.key lg) True store) store;
          entered = remdups (map fst tots @ map fst pinfo)
      in case add_entered lg current pinfo entered tots of
           Inl e \<Rightarrow> Inl e
         | Inr tots \<Rightarrow> Inr (tots, save_totals current tots store))"

function cummulate_loop ::
  "League \<Rightarrow> int \<Rightarrow> int \<Rightarrow> (string \<times> PointInfo) list \<times> datastore \<Rightarrow>
   error + (string \<times> PointInfo) list \<times> datastore" where
  "cummulate_loop lg end current st =
     (if current < end
      then (case cummulate_day lg (current + 1) st of
              Inl e \<Rightarrow> Inl e
            | Inr st \<Rightarrow> cummulate_loop lg end (current + 1) st)
      else Inr st)"
  by pat_completeness auto
termination
  by (relation "measure (\<lambda>(lg, end, current, st). nat (end - current))") auto

definition cummulate :: "League \<Rightarrow> datastore \<Rightarrow> int \<Rightarrow> error + League \<times> datastore" where
  "cummulate lg store end =
     (let current = League.date lg
      in if current \<ge> end then Inr (lg, store)
         else (let pointinfo = PointInfo_query current (League.key lg) True store;
                   tots = by_nickname pointinfo
               in case cummulate_loop lg end current (tots, store) of
                    Inl e \<Rightarrow> Inl e
                  | Inr (tots, store) \<Rightarrow> Inr (lg\<lparr>League.date := end\<rparr>, store)))"

subsection \<open>\<^verbatim>\<open>stats\<close>\<close>

text \<open>The loop of \<^verbatim>\<open>stats\<close> over the total records at \<^verbatim>\<open>end\<close>.\<close>

definition stats_results ::
  "(string \<times> PointInfo) list \<Rightarrow> (nat \<times> PointInfo) list \<Rightarrow> PointInfo list" where
  "stats_results startinfo epoints =
     map (\<lambda>(k, endinfo).
            case map_of startinfo (PointInfo.competitor endinfo) of
              Some sp \<Rightarrow> subtract endinfo sp
            | None \<Rightarrow> endinfo)
         epoints"

text \<open>\<^verbatim>\<open>stats(start, end)\<close>; \<open>today\<close> is what \<^verbatim>\<open>date.today()\<close> returns.\<close>

definition stats ::
  "int \<Rightarrow> League \<Rightarrow> datastore \<Rightarrow> int option \<Rightarrow> int option \<Rightarrow>
   error + League \<times> datastore \<times> PointInfo list" where
  "stats today lg store start end =
     (let end = (case end of None \<Rightarrow> today | Some e \<Rightarrow> e)
      in case cummulate lg store end of
           Inl e \<Rightarrow> Inl e
         | Inr (lg, store) \<Rightarrow>
             (let spoints = (case start of
                               None \<Rightarrow> []
                             | Some s \<Rightarrow> PointInfo_query s (League.key lg) True store);
                  startinfo = by_nickname spoints;
                  epoints = PointInfo_query end (League.key lg) True store
              in Inr (lg, store, stats_results startinfo epoints)))"

subsection \<open>The fast table\<close>

text \<open>The loop of \<^verbatim>\<open>FastTablePage.get\<close> over the records \<^verbatim>\<open>stats\<close> returns.\<close>

fun fast_rows :: "string \<Rightarrow> PointInfo list \<Rightarrow> attr_error + table_row list" where
  "fast_rows cname [] = Inr []"
| "fast_rows cname (info # rest) =
     (case table_entry (PointInfo.competitor info) (to_points cname info) of
        Inl e \<Rightarrow> Inl e
      | Inr row \<Rightarrow> (case fast_rows cname rest of Inl e \<Rightarrow> Inl e | Inr rows \<Rightarrow> Inr (row # rows)))"

datatype page_error = Statto_error error | Points_error attr_error

text \<open>
  \<^verbatim>\<open>FastTablePage.get\<close> for a league, with the request's \<^verbatim>\<open>start\<close> (if any) and \<^verbatim>\<open>end\<close>
  already parsed; the result is the dictionary handed to the template, with the lg
  and the datastore as \<^verbatim>\<open>stats\<close> left them.
\<close>

definition FastTablePage_get ::
  "int \<Rightarrow> League \<Rightarrow> datastore \<Rightarrow> int option \<Rightarrow> int \<Rightarrow>
   page_error + League \<times> datastore \<times> table" where
  "FastTablePage_get today lg store start end =
     (case stats today lg store start (Some end) of
        Inl e \<Rightarrow> Inl (Statto_error e)
      | Inr (lg, store, pinfo) \<Rightarrow>
          (case fast_rows (name (League.competition lg)) pinfo of
             Inl e \<Rightarrow> Inl (Points_error e)
           | Inr rows \<Rightarrow> Inr (lg, store, \<lparr>scores = rows, details = []\<rparr>)))"

section \<open>Notions used to state the standings claims\<close>

text \<open>The five point fields of any record that has them, and the tally of all zeros.\<close>

definition tally_of :: "('a tally_scheme) \<Rightarrow> tally" where
  "tally_of r =
     \<lparr>perfect = perfect r, goal_difference = goal_difference r, goals = goals r,
      result = result r, count = count r\<rparr>"

definition zero_tally :: tally where
  "zero_tally = \<lparr>perfect = 0, goal_difference = 0, goals = 0, result = 0, count = 0\<rparr>"

text \<open>The tally a dictionary holds for a nickname, a missing entry counting as zero.\<close>

definition tally_or_zero :: "(string \<times> 'a tally_scheme) list \<Rightarrow> string \<Rightarrow> tally" where
  "tally_or_zero d who = (case map_of d who of None \<Rightarrow> zero_tally | Some r \<Rightarrow> tally_of r)"

text \<open>
  The total records and the daily records of a league at a date, as the dictionary the
  code builds from the query.
\<close>

definition totals_at :: "datastore \<Rightarrow> nat \<Rightarrow> int \<Rightarrow> (string \<times> PointInfo) list" where
  "totals_at store l d = by_nickname (PointInfo_query d l True store)"

definition daily_at :: "datastore \<Rightarrow> nat \<Rightarrow> int \<Rightarrow> (string \<times> PointInfo) list" where
  "daily_at store l d = by_nickname (PointInfo_query d l False store)"

text \<open>The records a query returns, without their keys.\<close>

definition records_at :: "datastore \<Rightarrow> int \<Rightarrow> nat \<Rightarrow> bool \<Rightarrow> PointInfo list" where
  "records_at store d l t = map snd (PointInfo_query d l t store)"

text \<open>
  The order of the five-part sort key as the specification words it: descending on the
  four numbers, then ascending on the nickname. A list is ranked when every entry comes
  before all later ones in that order.
\<close>

fun sort_before ::
  "real \<times> real \<times> real \<times> real \<times> string \<Rightarrow> real \<times> real \<times> real \<times> real \<times> string \<Rightarrow> bool" where
  "sort_before (t1, p1, d1, g1, n1) (t2, p2, d2, g2, n2) =
     (t1 > t2 \<or> (t1 = t2 \<and> (p1 > p2 \<or> (p1 = p2 \<and> (d1 > d2 \<or> (d1 = d2 \<and>
        (g1 > g2 \<or> (g1 = g2 \<and> n1 < n2))))))))"

definition ranked :: "table_row list \<Rightarrow> bool" where
  "ranked rows = sorted_wrt (\<lambda>r1 r2. sort_before (sort r1) (sort r2)) rows"

text \<open>The sort key the code attaches to a nickname and its tally.\<close>

definition sort_key ::
  "string \<Rightarrow> ('a tally_scheme) \<Rightarrow> real \<times> real \<times> real \<times> real \<times> string" where
  "sort_key who p =
     (goals p + goal_difference p + perfect p + result p,
      perfect p, goal_difference p, goals p, who)"

subsection \<open>Concrete data for the examples\<close>

definition ex_league :: League where
  "ex_league =
     \<lparr>League.key = 1, competition = \<lparr>Competition.key = 7, name = ''Premier League''\<rparr>,
      date = 10, competitor_set = [''A'', ''B'']\<rparr>"

text \<open>A game on day 11 whose away score was never entered, with one prediction.\<close>

definition ex_half_game :: Game where
  "ex_half_game =
     \<lparr>ascore = 1, bscore = - 1, Game.competition = 7,
      matchtime = fromordinal 11 + 5,
      prediction_set = [\<lparr>ascore = 1, bscore = 0, Prediction.league = 1,
                          Prediction.competitor = ''A''\<rparr>]\<rparr>"

text \<open>A game on day 11 that ended 2-1, predicted 0-0 by A and 2-1 by B.\<close>

definition ex_game :: Game where
  "ex_game =
     \<lparr>ascore = 2, bscore = 1, Game.competition = 7,
      matchtime = fromordinal 11 + 5,
      prediction_set = [\<lparr>ascore = 0, bscore = 0, Prediction.league = 1,
                          Prediction.competitor = ''A''\<rparr>,
                        \<lparr>ascore = 2, bscore = 1, Prediction.league = 1,
                          Prediction.competitor = ''B''\<rparr>]\<rparr>"

text \<open>A point record of league 1 with the given goals and one prediction counted.\<close>

definition ex_info :: "string \<Rightarrow> int \<Rightarrow> real \<Rightarrow> bool \<Rightarrow> PointInfo" where
  "ex_info who d x t =
     \<lparr>perfect = 0, goal_difference = 0, goals = x, result = 0, count = 1,
      date = d, competitor = who, league = 1, totals = t\<rparr>"

text \<open>The daily records of the specification's cumulation example, the cursor at day 10.\<close>

definition ex_store :: datastore where
  "ex_store =
     [(1, ex_info ''A'' 11 5 False), (2, ex_info ''A'' 12 3 False),
      (3, ex_info ''B'' 12 2 False)]"

text \<open>Daily records in which B outscores A on day 12.\<close>

definition ex_store_b :: datastore where
  "ex_store_b =
     [(1, ex_info ''A'' 11 5 False), (2, ex_info ''A'' 12 2 False),
      (3, ex_info ''B'' 12 3 False)]"

subsection \<open>Auxiliary notions for the proofs about \<^verbatim>\<open>cummulate\<close>\<close>

text \<open>The total record \<^verbatim>\<open>cummulate\<close> saves for a running total.\<close>

definition saved_total :: "int \<Rightarrow> PointInfo \<Rightarrow> PointInfo" where
  "saved_total current tot =
     initialise (new_PointInfo (PointInfo.league tot) (PointInfo.competitor tot) current True) tot"

text \<open>
  What one round of the loop over \<^verbatim>\<open>entered\<close> makes of a nickname's running total
  \<open>t\<close>, given its record \<open>p\<close> of the day.
\<close>

definition merge_day ::
  "League \<Rightarrow> int \<Rightarrow> PointInfo option \<Rightarrow> PointInfo option \<Rightarrow> PointInfo option" where
  "merge_day lg current t p =
     (case p of
        None \<Rightarrow> t
      | Some p \<Rightarrow>
          Some (add (case t of
                       None \<Rightarrow> new_PointInfo (League.key lg) (PointInfo.competitor p) current True
                     | Some t \<Rightarrow> t) p))"

definition entered_step ::
  "League \<Rightarrow> int \<Rightarrow> (string \<times> PointInfo) list \<Rightarrow> string \<Rightarrow>
   (string \<times> PointInfo) list \<Rightarrow> (string \<times> PointInfo) list" where
  "entered_step lg current pinfo who tots =
     (case merge_day lg current (map_of tots who) (map_of pinfo who) of
        None \<Rightarrow> tots
      | Some t \<Rightarrow> (case map_of pinfo who of
                     None \<Rightarrow> tots
                   | Some p \<Rightarrow> AList.update who t tots))"

text \<open>The tally of a record that may be missing.\<close>

definition opt_tally :: "PointInfo option \<Rightarrow> tally" where
  "opt_tally r = (case r of None \<Rightarrow> zero_tally | Some r \<Rightarrow> tally_of r)"

text \<open>The store \<^verbatim>\<open>cummulate\<close> makes of the example when run up to day 12.\<close>

definition ex_store_12 :: datastore where
  "ex_store_12 =
     ex_store @
     [(4, ex_info ''A'' 11 5 True),
      (5, (ex_info ''A'' 12 8 True)\<lparr>count := 2\<rparr>),
      (6, ex_info ''B'' 12 2 True)]"

section \<open>Scoring theorems\<close>

lemma category_eq_iff:
  "category pa pb = category a b \<longleftrightarrow>
     (pa > pb \<and> a > b) \<or> (pa < pb \<and> a < b) \<or> (pa = pb \<and> a = b)"
  by (auto simp: category_def)

lemma category_swap:
  "(category pb pa = category b a) = (category pa pb = category a b)"
  by (auto simp: category_def split: if_splits)

lemma swap_sides_sel [simp]:
  "ascore (swap_sides x) = bscore x" "bscore (swap_sides x) = ascore x"
  by (simp_all add: swap_sides_def)

lemma upd_closed:
  fixes p :: "'a tally_scheme"
  shows "(let self = p\<lparr>count := count p + 1\<rparr>;
          self = (if c1 then self\<lparr>goals := goals self + v1\<rparr> else self);
          self = (if c2 then self\<lparr>goals := goals self + v2\<rparr> else self);
          self = (if c3 then self\<lparr>goal_difference := goal_difference self + v3\<rparr> else self);
          self = (if c4 then self\<lparr>perfect := perfect self + v4\<rparr> else self)
      in if c5 then self\<lparr>result := result self + v5\<rparr> else self) =
     p\<lparr>count := count p + 1,
       goals := goals p + (if c1 then v1 else 0) + (if c2 then v2 else 0),
       goal_difference := goal_difference p + (if c3 then v3 else 0),
       perfect := perfect p + (if c4 then v4 else 0),
       result := result p + (if c5 then v5 else 0)\<rparr>"
  by (cases c1; cases c2; cases c3; cases c4; cases c5) (simp_all add: Let_def)

lemma FootyPoints_update_closed:
  "FootyPoints_update p pr g q =
     p\<lparr>count := count p + 1,
       goals := goals p + (if ascore pr = ascore g then q else 0)
                        + (if bscore pr = bscore g then q else 0),
       goal_difference := goal_difference p
                        + (if bscore pr - ascore pr = bscore g - ascore g then q else 0),
       perfect := perfect p + (if ascore pr = ascore g \<and> bscore pr = bscore g then q else 0),
       result := result p
          + (if category (ascore pr) (bscore pr) = category (ascore g) (bscore g)
             then 2 * q else 0)\<rparr>"
  unfolding FootyPoints_update_def category_eq_iff
  using upd_closed [of p "ascore pr = ascore g" q "bscore pr = bscore g" q
      "bscore pr - ascore pr = bscore g - ascore g" q
      "ascore pr = ascore g \<and> bscore pr = bscore g" q
      "(ascore pr > bscore pr \<and> ascore g > bscore g) \<or>
       (ascore pr < bscore pr \<and> ascore g < bscore g) \<or>
       (ascore pr = bscore pr \<and> ascore g = bscore g)" "2 * q"]
  unfolding Let_def by (simp only: )

lemma EggPoints_update_closed:
  "EggPoints_update p pr g q =
     p\<lparr>count := count p + 1,
       goals := goals p + credit q \<bar>ascore pr - ascore g\<bar> + credit q \<bar>bscore pr - bscore g\<bar>,
       goal_difference := goal_difference p
          + credit q \<bar>(bscore pr - ascore pr) - (bscore g - ascore g)\<bar>,
       perfect := perfect p + credit q (\<bar>ascore pr - ascore g\<bar> + \<bar>bscore pr - bscore g\<bar>),
       result := result p
          + (if category (ascore pr) (bscore pr) = category (ascore g) (bscore g)
             then 2 * q else 0)\<rparr>"
  unfolding EggPoints_update_def category_eq_iff credit_def
  using upd_closed [of p
      "\<bar>ascore pr - ascore g\<bar> \<le> tolerance"
      "q * of_int (tolerance + 1 - \<bar>ascore pr - ascore g\<bar>)"
      "\<bar>bscore pr - bscore g\<bar> \<le> tolerance"
      "q * of_int (tolerance + 1 - \<bar>bscore pr - bscore g\<bar>)"
      "\<bar>(bscore pr - ascore pr) - (bscore g - ascore g)\<bar> \<le> tolerance"
      "q * of_int (tolerance + 1 - \<bar>(bscore pr - ascore pr) - (bscore g - ascore g)\<bar>)"
      "\<bar>ascore pr - ascore g\<bar> + \<bar>bscore pr - bscore g\<bar> \<le> tolerance"
      "q * of_int (tolerance + 1 - (\<bar>ascore pr - ascore g\<bar> + \<bar>bscore pr - bscore g\<bar>))"
      "(ascore pr > bscore pr \<and> ascore g > bscore g) \<or>
       (ascore pr < bscore pr \<and> ascore g < bscore g) \<or>
       (ascore pr = bscore pr \<and> ascore g = bscore g)" "2 * q"]
  unfolding Let_def by (simp only: )

lemma FootyPoints_update_goals:
  "goals (FootyPoints_update p pr g q) =
     goals p + (if ascore pr = ascore g then q else 0) + (if bscore pr = bscore g then q else 0)"
  by (simp add: FootyPoints_update_closed split del: if_split)

lemma FootyPoints_update_goal_difference:
  "goal_difference (FootyPoints_update p pr g q) =
     goal_difference p + (if bscore pr - ascore pr = bscore g - ascore g then q else 0)"
  by (simp add: FootyPoints_update_closed split del: if_split)

lemma FootyPoints_update_perfect:
  "perfect (FootyPoints_update p pr g q) =
     perfect p + (if ascore pr = ascore g \<and> bscore pr = bscore g then q else 0)"
  by (simp add: FootyPoints_update_closed split del: if_split)

lemma FootyPoints_update_result:
  "result (FootyPoints_update p pr g q) =
     result p + (if category (ascore pr) (bscore pr) = category (ascore g) (bscore g)
                 then 2 * q else 0)"
  by (simp add: FootyPoints_update_closed split del: if_split)

lemma FootyPoints_update_count:
  "count (FootyPoints_update p pr g q) = count p + 1"
  by (simp add: FootyPoints_update_closed split del: if_split)

lemma FootyPoints_update_more:
  "tally.more (FootyPoints_update p pr g q) = tally.more p"
  by (simp add: FootyPoints_update_closed split del: if_split)

lemma EggPoints_update_goals:
  "goals (EggPoints_update p pr g q) =
     goals p + credit q \<bar>ascore pr - ascore g\<bar> + credit q \<bar>bscore pr - bscore g\<bar>"
  by (simp add: EggPoints_update_closed split del: if_split)

lemma EggPoints_update_goal_difference:
  "goal_difference (EggPoints_update p pr g q) =
     goal_difference p + credit q \<bar>(bscore pr - ascore pr) - (bscore g - ascore g)\<bar>"
  by (simp add: EggPoints_update_closed split del: if_split)

lemma EggPoints_update_perfect:
  "perfect (EggPoints_update p pr g q) =
     perfect p + credit q (\<bar>ascore pr - ascore g\<bar> + \<bar>bscore pr - bscore g\<bar>)"
  by (simp add: EggPoints_update_closed split del: if_split)

lemma EggPoints_update_result:
  "result (EggPoints_update p pr g q) =
     result p + (if category (ascore pr) (bscore pr) = category (ascore g) (bscore g)
                 then 2 * q else 0)"
  by (simp add: EggPoints_update_closed split del: if_split)

lemma EggPoints_update_count:
  "count (EggPoints_update p pr g q) = count p + 1"
  by (simp add: EggPoints_update_closed split del: if_split)

lemma EggPoints_update_more:
  "tally.more (EggPoints_update p pr g q) = tally.more p"
  by (simp add: EggPoints_update_closed split del: if_split)

lemmas FootyPoints_update_fields =
  FootyPoints_update_goals FootyPoints_update_goal_difference FootyPoints_update_perfect
  FootyPoints_update_result FootyPoints_update_count FootyPoints_update_more

lemmas EggPoints_update_fields =
  EggPoints_update_goals EggPoints_update_goal_difference EggPoints_update_perfect
  EggPoints_update_result EggPoints_update_count EggPoints_update_more

text \<open>
  Claim C3. Standard scoring (\<^verbatim>\<open>FootyPoints.update\<close> with quantum \<open>q\<close>) adds \<open>q\<close> to
  \<open>goals\<close> for each side whose predicted score equals the actual one, \<open>q\<close> to
  \<open>goal_difference\<close> iff the predicted difference equals the actual one, \<open>q\<close> to
  \<open>perfect\<close> iff both scores match, \<open>2q\<close> to \<open>result\<close> iff the outcome categories agree,
  and 1 to \<open>count\<close>. Prediction (2,1) against result (2,1) on a fresh tally with quantum 1
  gives goals 2, goal difference 1, perfect 1, result 2, count 1, and \<^verbatim>\<open>set_total\<close> then
  gives total 6.
\<close>

theorem C3_standard_update:
  "goals (FootyPoints_update p pr g q) =
     goals p + (if ascore pr = ascore g then q else 0) + (if bscore pr = bscore g then q else 0)
   \<and> goal_difference (FootyPoints_update p pr g q) =
     goal_difference p + (if bscore pr - ascore pr = bscore g - ascore g then q else 0)
   \<and> perfect (FootyPoints_update p pr g q) =
     perfect p + (if ascore pr = ascore g \<and> bscore pr = bscore g then q else 0)
   \<and> result (FootyPoints_update p pr g q) =
     result p + (if category (ascore pr) (bscore pr) = category (ascore g) (bscore g)
                 then 2 * q else 0)
   \<and> count (FootyPoints_update p pr g q) = count p + 1
   \<and> tally.more (FootyPoints_update p pr g q) = tally.more p
   \<and> update (Points ''Premier League'') \<lparr>ascore = 2, bscore = 1\<rparr> \<lparr>ascore = 2, bscore = 1\<rparr> 1 =
     \<lparr>perfect = 1, goal_difference = 1, goals = 2, result = 2, count = 1,
      cls = FootyPointsClass, total = None, ppp = None\<rparr>
   \<and> FootyPoints.total (set_total (update (Points ''Premier League'')
        \<lparr>ascore = 2, bscore = 1\<rparr> \<lparr>ascore = 2, bscore = 1\<rparr> 1)) = Some 6"
proof -
  have ex: "update (Points ''Premier League'') \<lparr>ascore = 2, bscore = 1\<rparr> \<lparr>ascore = 2, bscore = 1\<rparr> 1 =
     \<lparr>perfect = 1, goal_difference = 1, goals = 2, result = 2, count = 1,
      cls = FootyPointsClass, total = None, ppp = None\<rparr>"
    by (simp add: update_def Points_def FootyPoints_init_def FootyPoints_update_def
        sublist_code)
  have "FootyPoints.total (set_total (update (Points ''Premier League'')
        \<lparr>ascore = 2, bscore = 1\<rparr> \<lparr>ascore = 2, bscore = 1\<rparr> 1)) = Some 6"
    unfolding ex by (simp add: set_total_def)
  with ex show ?thesis
    by (simp only: FootyPoints_update_fields simp_thms)
qed

text \<open>
  Claim C4. Tolerance-based scoring (\<^verbatim>\<open>EggPoints.update\<close>, tolerance 3, quantum \<open>q\<close>)
  adds the credit \<open>q * (T + 1 - delta)\<close> when \<open>delta \<le> T\<close> and nothing otherwise, where
  \<open>delta\<close> is each side's absolute score difference for \<open>goals\<close> (one credit per side),
  the absolute difference of the two goal differences for \<open>goal_difference\<close>, and the
  sum of the two per-side absolute differences for \<open>perfect\<close>; \<open>result\<close> gains \<open>2q\<close> iff
  the outcome categories agree, and \<open>count\<close> gains 1. Prediction (1,1) against result
  (3,2) on a fresh tally with quantum 1 gives goals 5, goal difference 3, perfect 1,
  result 0, count 1.
\<close>

theorem C4_tolerance_update:
  "tolerance = 3
   \<and> credit q delta = (if delta \<le> 3 then q * of_int (3 + 1 - delta) else 0)
   \<and> goals (EggPoints_update p pr g q) =
     goals p + credit q \<bar>ascore pr - ascore g\<bar> + credit q \<bar>bscore pr - bscore g\<bar>
   \<and> goal_difference (EggPoints_update p pr g q) =
     goal_difference p + credit q \<bar>(bscore pr - ascore pr) - (bscore g - ascore g)\<bar>
   \<and> perfect (EggPoints_update p pr g q) =
     perfect p + credit q (\<bar>ascore pr - ascore g\<bar> + \<bar>bscore pr - bscore g\<bar>)
   \<and> result (EggPoints_update p pr g q) =
     result p + (if category (ascore pr) (bscore pr) = category (ascore g) (bscore g)
                 then 2 * q else 0)
   \<and> count (EggPoints_update p pr g q) = count p + 1
   \<and> tally.more (EggPoints_update p pr g q) = tally.more p
   \<and> update (Points ''egg chasing'') \<lparr>ascore = 1, bscore = 1\<rparr> \<lparr>ascore = 3, bscore = 2\<rparr> 1 =
     \<lparr>perfect = 1, goal_difference = 3, goals = 5, result = 0, count = 1,
      cls = EggPointsClass, total = None, ppp = None\<rparr>"
proof -
  have ex: "update (Points ''egg chasing'') \<lparr>ascore = 1, bscore = 1\<rparr> \<lparr>ascore = 3, bscore = 2\<rparr> 1 =
     \<lparr>perfect = 1, goal_difference = 3, goals = 5, result = 0, count = 1,
      cls = EggPointsClass, total = None, ppp = None\<rparr>"
    by (simp add: update_def Points_def FootyPoints_init_def EggPoints_update_def
        tolerance_def sublist_code)
  have cr: "credit q delta = (if delta \<le> 3 then q * of_int (3 + 1 - delta) else 0)"
    by (simp add: credit_def tolerance_def)
  have tol: "tolerance = 3"
    by (simp add: tolerance_def)
  from ex cr tol show ?thesis
    by (simp only: EggPoints_update_fields simp_thms)
qed

text \<open>
  Claim C9. For both scoring rules, swapping the home and away labels in both the
  prediction and the result leaves the \<open>perfect\<close> and the \<open>result\<close> contributions as
  they are.
\<close>

theorem C9_swap_symmetry:
  "perfect (update p (swap_sides pr) (swap_sides g) q) = perfect (update p pr g q)
   \<and> result (update p (swap_sides pr) (swap_sides g) q) = result (update p pr g q)
   \<and> perfect (FootyPoints_update t (swap_sides pr) (swap_sides g) q) =
       perfect (FootyPoints_update t pr g q)
   \<and> result (FootyPoints_update t (swap_sides pr) (swap_sides g) q) =
       result (FootyPoints_update t pr g q)
   \<and> perfect (EggPoints_update t (swap_sides pr) (swap_sides g) q) =
       perfect (EggPoints_update t pr g q)
   \<and> result (EggPoints_update t (swap_sides pr) (swap_sides g) q) =
       result (EggPoints_update t pr g q)"
proof -
  have fp: "perfect (FootyPoints_update t (swap_sides pr) (swap_sides g) q) =
             perfect (FootyPoints_update t pr g q)" for t :: "'z tally_scheme"
    by (simp add: FootyPoints_update_perfect conj_commute)
  have fr: "result (FootyPoints_update t (swap_sides pr) (swap_sides g) q) =
             result (FootyPoints_update t pr g q)" for t :: "'z tally_scheme"
    by (simp add: FootyPoints_update_result category_swap)
  have ep: "perfect (EggPoints_update t (swap_sides pr) (swap_sides g) q) =
             perfect (EggPoints_update t pr g q)" for t :: "'z tally_scheme"
    by (simp add: EggPoints_update_perfect add.commute)
  have er: "result (EggPoints_update t (swap_sides pr) (swap_sides g) q) =
             result (EggPoints_update t pr g q)" for t :: "'z tally_scheme"
    by (simp add: EggPoints_update_result category_swap)
  have "perfect (update p (swap_sides pr) (swap_sides g) q) = perfect (update p pr g q)"
    by (cases "cls p") (simp_all add: update_def fp ep)
  moreover have "result (update p (swap_sides pr) (swap_sides g) q) = result (update p pr g q)"
    by (cases "cls p") (simp_all add: update_def fr er)
  ultimately show ?thesis
    using fp [of t] fr [of t] ep [of t] er [of t] by simp
qed

text \<open>
  Claim C10. On a tally whose \<open>count\<close> is 0, \<^verbatim>\<open>set_total\<close> still sets \<open>total\<close> to the sum
  of the four scoring fields but leaves \<open>ppp\<close> as it was (unset on a fresh object); it
  assigns \<open>ppp\<close> only when \<open>count\<close> is positive. \<^verbatim>\<open>calculate_averages\<close> has no such guard
  and fails with a division by zero when \<open>count\<close> is 0.
\<close>

theorem C10_zero_count:
  "count p = 0 \<Longrightarrow>
     FootyPoints.total (set_total p) = Some (goals p + goal_difference p + perfect p + result p)
     \<and> ppp (set_total p) = ppp p
     \<and> calculate_averages p = Inl ZeroDivisionError
     \<and> ppp (set_total (Points cname)) = None
     \<and> (\<forall>p'. ppp (set_total p') \<noteq> ppp p' \<longrightarrow> count p' > 0)"
proof -
  assume c: "count p = 0"
  have a: "FootyPoints.total (set_total p) = Some (goals p + goal_difference p + perfect p + result p)"
    by (simp add: set_total_def Let_def)
  have b: "ppp (set_total p) = ppp p"
    using c by (simp add: set_total_def Let_def)
  have d: "calculate_averages p = Inl ZeroDivisionError"
    using c by (simp add: set_total_def calculate_averages_def Let_def)
  have e: "ppp (set_total (Points cname)) = None"
    by (simp add: set_total_def Let_def Points_def FootyPoints_init_def)
  have f: "\<forall>p'. ppp (set_total p') \<noteq> ppp p' \<longrightarrow> count p' > 0"
    by (simp add: set_total_def Let_def)
  from a b d e f show ?thesis by blast
qed

theorem C10_zero_count_witness:
  "count (Points ''Premier League'') = 0
   \<and> FootyPoints.total (set_total (Points ''Premier League'')) = Some 0
   \<and> ppp (set_total (Points ''Premier League'')) = None
   \<and> calculate_averages (Points ''Premier League'') = Inl ZeroDivisionError"
  using C10_zero_count [of "Points ''Premier League''" "''Premier League''"]
  by (simp add: Points_def FootyPoints_init_def sublist_code)

section \<open>Table theorems\<close>

lemma table_entry_set_total:
  "table_entry who (set_total p) =
     Inr \<lparr>total = goals p + goal_difference p + perfect p + result p,
          sort = sort_key who p, points = set_total p, nickname = who\<rparr>"
  by (simp add: table_entry_def set_total_def Let_def sort_key_def)

lemma table_rows_eq:
  "table_rows scs =
     Inr (map (\<lambda>(who, p). \<lparr>total = goals p + goal_difference p + perfect p + result p,
          sort = sort_key who p, points = set_total p, nickname = who\<rparr>) scs)"
  by (induction scs) (auto simp: table_entry_set_total)

lemma to_points_fields:
  "perfect (to_points cname r) = perfect r"
  "goal_difference (to_points cname r) = goal_difference r"
  "goals (to_points cname r) = goals r"
  "result (to_points cname r) = result r"
  "count (to_points cname r) = count r"
  "FootyPoints.total (to_points cname r) =
     Some (goals r + goal_difference r + perfect r + result r)"
  by (simp_all add: to_points_def set_total_def initialise_def Let_def)

lemma table_entry_to_points:
  "table_entry who (to_points cname r) =
     Inr \<lparr>total = goals r + goal_difference r + perfect r + result r,
          sort = sort_key who r, points = to_points cname r, nickname = who\<rparr>"
  by (simp add: table_entry_def to_points_fields sort_key_def)

lemma fast_rows_eq:
  "fast_rows cname rs =
     Inr (map (\<lambda>r. \<lparr>total = goals r + goal_difference r + perfect r + result r,
          sort = sort_key (PointInfo.competitor r) r, points = to_points cname r,
          nickname = PointInfo.competitor r\<rparr>) rs)"
  by (induction rs) (auto simp: table_entry_to_points)

lemma score_prediction_distinct:
  "distinct (map fst (fst acc)) \<Longrightarrow>
   distinct (map fst (fst (score_prediction cname dd res p acc)))"
  by (cases acc) (simp add: score_prediction_def Let_def distinct_update)

lemma fold_score_prediction_distinct:
  "distinct (map fst (fst acc)) \<Longrightarrow>
   distinct (map fst (fst (fold (score_prediction cname dd res) ps acc)))"
  by (induction ps arbitrary: acc) (simp_all add: score_prediction_distinct)

lemma process_predictions_distinct:
  "distinct (map fst (fst (process_predictions results lg dd)))"
proof -
  have "distinct (map fst (fst acc)) \<Longrightarrow>
        distinct (map fst (fst (fold (\<lambda>res acc.
           fold (score_prediction cname dd res)
             [p \<leftarrow> prediction_set res. Prediction.league p = l] acc) results acc)))"
    for acc cname l
    by (induction results arbitrary: acc) (simp_all add: fold_score_prediction_distinct)
  from this [of "([], [])"] show ?thesis
    by (simp add: process_predictions_def Let_def)
qed

lemma sort_before_total:
  "fst (snd (snd (snd (snd k1)))) \<noteq> fst (snd (snd (snd (snd k2)))) \<Longrightarrow> k1 \<noteq> k2" by auto

lemma sort_before_linear:
  "snd (snd (snd (snd k1))) \<noteq> snd (snd (snd (snd k2))) \<Longrightarrow>
   sort_before k1 k2 \<or> sort_before k2 k1"
  by (cases k1; cases k2) auto

lemma sort_before_irrefl: "\<not> sort_before k k"
  by (cases k) auto

lemma sort_before_trans: "sort_before a b \<Longrightarrow> sort_before b c \<Longrightarrow> sort_before a c"
  by (cases a; cases b; cases c) auto


text \<open>
  Claim C8, as the code has it. \<^verbatim>\<open>update_points\<close> and \<^verbatim>\<open>create_table\<close> score a game of
  the queried range if and only if its home score \<^verbatim>\<open>ascore\<close> is at least 0; the away
  score is not looked at.
\<close>

theorem C8_played_filter:
  "(g \<in> set (update_points_games all_games day) \<longleftrightarrow>
      g \<in> set (days_games all_games day) \<and> ascore g \<ge> 0)
   \<and> (g \<in> set (create_table_results all_games lg start end) \<longleftrightarrow>
      (g \<in> set (game_set all_games lg) \<and> start \<le> matchtime g \<and> matchtime g \<le> end)
      \<and> ascore g \<ge> 0)"
  by (auto simp: update_points_games_def create_table_results_def)

text \<open>
  The claim as stated asks for both scores to be at least 0. A game with home score 1 and
  no away score is in the range of day 11, fails that test, and is scored all the same by
  both paths: its one prediction earns A a record.
\<close>

theorem C8_counterexample:
  "ex_half_game \<in> set (days_games [ex_half_game] 11)
   \<and> ex_half_game \<in> set (game_set [ex_half_game] ex_league)
   \<and> \<not> (ascore ex_half_game \<ge> 0 \<and> bscore ex_half_game \<ge> 0)
   \<and> ex_half_game \<in> set (update_points_games [ex_half_game] 11)
   \<and> ex_half_game \<in> set (create_table_results [ex_half_game] ex_league
                              (fromordinal 11) (fromordinal 12))
   \<and> update_points [ex_half_game] ex_league 11 [] =
       Inr [(1, \<lparr>perfect = 0, goal_difference = 0, goals = 1, result = 2, count = 1,
                 date = 11, competitor = ''A'', league = 1, totals = False\<rparr>)]
   \<and> map_sum id (map sort \<circ> scores)
        (create_table [ex_half_game] 0 ex_league (Some (fromordinal 11)) (Some (fromordinal 12)))
       = Inr [(3, 0, 0, 1, ''A'')]"
  by code_simp

section \<open>The datastore\<close>

lemma fold_max_ge: "(a::nat) \<le> fold max xs a"
proof (induction xs arbitrary: a)
  case Nil show ?case by simp
next
  case (Cons x xs)
  have "a \<le> max x a" by simp
  also have "\<dots> \<le> fold max xs (max x a)" by (rule Cons.IH)
  finally show ?case by simp
qed

lemma fold_max_mem: "x \<in> set xs \<Longrightarrow> (x::nat) \<le> fold max xs a"
proof (induction xs arbitrary: a)
  case Nil then show ?case by simp
next
  case (Cons y ys)
  show ?case
  proof (cases "x = y")
    case True
    have "x \<le> max y a" using True by simp
    also have "\<dots> \<le> fold max ys (max y a)" by (rule fold_max_ge)
    finally show ?thesis by simp
  next
    case False
    with Cons.prems have "x \<in> set ys" by simp
    then show ?thesis using Cons.IH by simp
  qed
qed

lemma fresh_key_fresh: "fresh_key store \<notin> fst ` set store"
proof
  assume "fresh_key store \<in> fst ` set store"
  then have "fresh_key store \<in> set (map fst store)" by simp
  then have "fresh_key store \<le> fold max (map fst store) 0" by (rule fold_max_mem)
  then show False by (simp add: fresh_key_def)
qed

lemma save_None_eq: "save None r store = store @ [(fresh_key store, r)]"
  by (simp add: save_def)

lemma distinct_save_None:
  "distinct (map fst store) \<Longrightarrow> distinct (map fst (save None r store))"
  using fresh_key_fresh [of store] by (simp add: save_None_eq)

lemma delete_eq_filter: "delete k store = filter (\<lambda>(k', r). k' \<noteq> k) store"
proof -
  have "(\<lambda>p. k \<noteq> fst p) = (\<lambda>p::nat \<times> PointInfo. fst p \<noteq> k)" by auto
  then show ?thesis by (simp add: delete_def AList.delete_eq case_prod_unfold)
qed

lemma fold_delete_filter:
  "fold (\<lambda>(k, info) s. delete k s) ps store = filter (\<lambda>(k, r). k \<notin> fst ` set ps) store"
proof (induction ps arbitrary: store)
  case Nil show ?case by simp
next
  case (Cons p ps)
  obtain k info where p: "p = (k, info)" by (cases p)
  have "fold (\<lambda>(k, info) s. delete k s) (p # ps) store =
        fold (\<lambda>(k, info) s. delete k s) ps (delete k store)"
    by (simp add: p)
  also have "\<dots> = filter (\<lambda>(k', r). k' \<notin> fst ` set ps) (delete k store)"
    by (rule Cons.IH)
  also have "\<dots> =
        filter (\<lambda>(k', r). k' \<notin> fst ` set ps) (filter (\<lambda>(k', r). k' \<noteq> k) store)"
    by (simp only: delete_eq_filter)
  also have "\<dots> = filter (\<lambda>(k', r). k' \<notin> fst ` set (p # ps)) store"
    by (auto simp: p intro: filter_cong)
  finally show ?case .
qed

lemma key_in_filter_iff:
  assumes "distinct (map fst store)" and "(k, r) \<in> set store"
  shows "k \<in> fst ` set (filter P store) \<longleftrightarrow> P (k, r)"
proof
  assume "k \<in> fst ` set (filter P store)"
  then obtain r' where r': "(k, r') \<in> set store" "P (k, r')" by auto
  from assms r'(1) have "r' = r" by (meson eq_key_imp_eq_value)
  with r'(2) show "P (k, r)" by simp
next
  assume "P (k, r)"
  with assms(2) show "k \<in> fst ` set (filter P store)" by force
qed

lemma delete_matching:
  assumes "distinct (map fst store)"
  shows "fold (\<lambda>(k, info) s. delete k s) (filter P store) store = filter (\<lambda>x. \<not> P x) store"
proof -
  have "filter (\<lambda>(k, r). k \<notin> fst ` set (filter P store)) store = filter (\<lambda>x. \<not> P x) store"
  proof (rule filter_cong [OF refl])
    fix x assume x: "x \<in> set store"
    obtain k r where kr: "x = (k, r)" by (cases x)
    from key_in_filter_iff [OF assms, of k r P] x kr
    show "(case x of (k, r) \<Rightarrow> k \<notin> fst ` set (filter P store)) = (\<not> P x)" by simp
  qed
  then show ?thesis by (simp add: fold_delete_filter)
qed


lemma PointInfo_query_filter:
  "PointInfo_query d l t store =
     filter (\<lambda>x. PointInfo.date (snd x) = d \<and> PointInfo.league (snd x) = l
                 \<and> totals (snd x) = t) store"
  by (simp add: PointInfo_query_def case_prod_unfold)

lemma PointInfo_query_append:
  "PointInfo_query d l t (xs @ ys) = PointInfo_query d l t xs @ PointInfo_query d l t ys"
  by (simp add: PointInfo_query_filter)

lemma PointInfo_query_mem:
  "(k, r) \<in> set (PointInfo_query d l t store) \<longleftrightarrow>
     (k, r) \<in> set store \<and> PointInfo.date r = d \<and> PointInfo.league r = l \<and> totals r = t"
  by (auto simp: PointInfo_query_filter)

subsection \<open>Dictionaries by nickname\<close>

lemma by_nickname_fold:
  "map_of (fold (\<lambda>(k, info) d. AList.update (PointInfo.competitor info) info d) ps d0) who =
     (case map_of (rev (map (\<lambda>x. (PointInfo.competitor (snd x), snd x)) ps)) who of
        Some r \<Rightarrow> Some r
      | None \<Rightarrow> map_of d0 who)"
proof (induction ps arbitrary: d0)
  case Nil show ?case by simp
next
  case (Cons p ps)
  obtain k info where p: "p = (k, info)" by (cases p)
  have "map_of (fold (\<lambda>(k, info) d. AList.update (PointInfo.competitor info) info d) (p # ps) d0) who
      = map_of (fold (\<lambda>(k, info) d. AList.update (PointInfo.competitor info) info d) ps
          (AList.update (PointInfo.competitor info) info d0)) who"
    by (simp add: p)
  also have "\<dots> =
     (case map_of (rev (map (\<lambda>x. (PointInfo.competitor (snd x), snd x)) ps)) who of
        Some r \<Rightarrow> Some r
      | None \<Rightarrow> map_of (AList.update (PointInfo.competitor info) info d0) who)"
    by (rule Cons.IH)
  also have "\<dots> =
     (case map_of (rev (map (\<lambda>x. (PointInfo.competitor (snd x), snd x)) (p # ps))) who of
        Some r \<Rightarrow> Some r
      | None \<Rightarrow> map_of d0 who)"
    by (simp add: p update_conv' map_add_def split: option.split)
  finally show ?case .
qed

lemma by_nickname_map_of:
  "map_of (by_nickname ps) =
     map_of (rev (map (\<lambda>x. (PointInfo.competitor (snd x), snd x)) ps))"
  by (rule ext) (simp add: by_nickname_def by_nickname_fold split: option.split)

lemma by_nickname_distinct: "distinct (map fst (by_nickname ps))"
proof -
  have "distinct (map fst d0) \<Longrightarrow>
        distinct (map fst (fold (\<lambda>(k, info) d. AList.update (PointInfo.competitor info) info d)
           ps d0))" for d0
    by (induction ps arbitrary: d0) (auto simp: distinct_update)
  from this [of "[]"] show ?thesis by (simp add: by_nickname_def)
qed

lemma by_nickname_Some:
  assumes "map_of (by_nickname ps) who = Some r"
  shows "PointInfo.competitor r = who \<and> r \<in> snd ` set ps"
proof -
  from assms have "(who, r) \<in> set (rev (map (\<lambda>x. (PointInfo.competitor (snd x), snd x)) ps))"
    unfolding by_nickname_map_of by (rule map_of_SomeD)
  then show ?thesis by auto
qed

lemma by_nickname_None:
  "map_of (by_nickname ps) who = None \<longleftrightarrow> who \<notin> (PointInfo.competitor \<circ> snd) ` set ps"
  unfolding by_nickname_map_of by (force simp: map_of_eq_None_iff)

lemma by_nickname_mem:
  "(who, r) \<in> set (by_nickname ps) \<Longrightarrow> PointInfo.competitor r = who \<and> r \<in> snd ` set ps"
  using by_nickname_Some [of ps who r] by_nickname_distinct [of ps] by simp

lemma map_of_rev_distinct:
  "distinct (map fst xs) \<Longrightarrow> map_of (rev xs) = map_of xs"
  by (rule map_of_inject_set [THEN iffD2]) (simp_all add: rev_map [symmetric])

lemma by_nickname_distinct_nicks:
  assumes "distinct (map (PointInfo.competitor \<circ> snd) ps)"
  shows "map_of (by_nickname ps) = map_of (map (\<lambda>x. (PointInfo.competitor (snd x), snd x)) ps)"
proof -
  have "map fst (map (\<lambda>x. (PointInfo.competitor (snd x), snd x)) ps) =
        map (PointInfo.competitor \<circ> snd) ps" by simp
  with assms have "distinct (map fst (map (\<lambda>x. (PointInfo.competitor (snd x), snd x)) ps))"
    by (simp only: )
  then show ?thesis unfolding by_nickname_map_of by (rule map_of_rev_distinct)
qed

subsection \<open>Saving the totals\<close>

lemma save_totals_Cons:
  "save_totals c ((w, t) # tots) store =
     save_totals c tots (store @ [(fresh_key store, saved_total c t)])"
  by (simp add: save_totals_def saved_total_def save_None_eq)

lemma save_totals_Nil: "save_totals c [] store = store"
  by (simp add: save_totals_def)

lemma save_totals_append:
  "\<exists>ks. length ks = length tots \<and> distinct ks \<and> set ks \<inter> fst ` set store = {}
      \<and> save_totals c tots store = store @ zip ks (map (saved_total c \<circ> snd) tots)"
proof (induction tots arbitrary: store)
  case Nil
  show ?case by (simp add: save_totals_Nil)
next
  case (Cons x tots)
  obtain w t where x: "x = (w, t)" by (cases x)
  let ?fk = "fresh_key store"
  let ?store' = "store @ [(?fk, saved_total c t)]"
  from Cons.IH [of ?store'] obtain ks where
    ks: "length ks = length tots" "distinct ks" "set ks \<inter> fst ` set ?store' = {}"
        "save_totals c tots ?store' = ?store' @ zip ks (map (saved_total c \<circ> snd) tots)"
    by blast
  have fk: "?fk \<notin> fst ` set store" by (rule fresh_key_fresh)
  from ks(3) have nfk: "?fk \<notin> set ks" and disj: "set ks \<inter> fst ` set store = {}"
    by auto
  have "length (?fk # ks) = length (x # tots)" using ks(1) by simp
  moreover have "distinct (?fk # ks)" using ks(2) nfk by simp
  moreover have "set (?fk # ks) \<inter> fst ` set store = {}" using disj fk by simp
  moreover have "save_totals c (x # tots) store =
      store @ zip (?fk # ks) (map (saved_total c \<circ> snd) (x # tots))"
    by (simp add: x save_totals_Cons ks(4))
  ultimately show ?case by blast
qed

subsection \<open>The loop over the entered nicknames\<close>

lemma add_entered_Cons:
  "add_entered lg c pinfo (w # ws) tots =
     (if map_of tots w = None \<and> map_of pinfo w = None then Inl KeyError
      else add_entered lg c pinfo ws (entered_step lg c pinfo w tots))"
  by (simp add: entered_step_def merge_day_def Let_def split: option.split)

lemma map_of_entered_step:
  "map_of (entered_step lg c pinfo w tots) =
     (map_of tots)(w := merge_day lg c (map_of tots w) (map_of pinfo w))"
  by (rule ext) (auto simp: entered_step_def merge_day_def update_conv' split: option.split)

lemma distinct_entered_step:
  "distinct (map fst tots) \<Longrightarrow> distinct (map fst (entered_step lg c pinfo w tots))"
  by (simp add: entered_step_def distinct_update split: option.split)

lemma add_entered_result:
  assumes "distinct ws"
    and "\<forall>w \<in> set ws. map_of tots w \<noteq> None \<or> map_of pinfo w \<noteq> None"
  shows "\<exists>tots'. add_entered lg c pinfo ws tots = Inr tots'
      \<and> (\<forall>w. map_of tots' w =
            (if w \<in> set ws then merge_day lg c (map_of tots w) (map_of pinfo w)
             else map_of tots w))
      \<and> (distinct (map fst tots) \<longrightarrow> distinct (map fst tots'))"
  using assms
proof (induction ws arbitrary: tots)
  case Nil
  show ?case by simp
next
  case (Cons w ws)
  let ?t1 = "entered_step lg c pinfo w tots"
  have m1: "map_of ?t1 = (map_of tots)(w := merge_day lg c (map_of tots w) (map_of pinfo w))"
    by (rule map_of_entered_step)
  from Cons.prems have w: "w \<notin> set ws" and dws: "distinct ws" by simp_all
  have other: "map_of ?t1 w' = map_of tots w'" if "w' \<in> set ws" for w'
    using that w by (auto simp: m1)
  have "\<forall>w' \<in> set ws. map_of ?t1 w' \<noteq> None \<or> map_of pinfo w' \<noteq> None"
    using Cons.prems(2) other by simp
  from Cons.IH [OF dws this] obtain tots' where
    t': "add_entered lg c pinfo ws ?t1 = Inr tots'"
        "\<forall>w'. map_of tots' w' =
            (if w' \<in> set ws then merge_day lg c (map_of ?t1 w') (map_of pinfo w')
             else map_of ?t1 w')"
        "distinct (map fst ?t1) \<longrightarrow> distinct (map fst tots')"
    by blast
  from Cons.prems(2) have "\<not> (map_of tots w = None \<and> map_of pinfo w = None)" by simp
  then have "add_entered lg c pinfo (w # ws) tots = Inr tots'"
    by (simp only: add_entered_Cons t'(1) if_False)
  moreover have "\<forall>w'. map_of tots' w' =
            (if w' \<in> set (w # ws) then merge_day lg c (map_of tots w') (map_of pinfo w')
             else map_of tots w')"
  proof
    fix w'
    show "map_of tots' w' =
            (if w' \<in> set (w # ws) then merge_day lg c (map_of tots w') (map_of pinfo w')
             else map_of tots w')"
    proof (cases "w' \<in> set ws")
      case True
      with t'(2) other show ?thesis by simp
    next
      case False
      with t'(2) have "map_of tots' w' = map_of ?t1 w'" by simp
      with False show ?thesis by (simp add: m1)
    qed
  qed
  moreover have "distinct (map fst tots) \<longrightarrow> distinct (map fst tots')"
    using t'(3) distinct_entered_step by blast
  ultimately show ?case by blast
qed

section \<open>Cumulation\<close>

lemma tally_or_zero_opt: "tally_or_zero d w = opt_tally (map_of d w)"
  by (simp add: tally_or_zero_def opt_tally_def)

lemma saved_total_fields:
  "PointInfo.date (saved_total c t) = c"
  "PointInfo.competitor (saved_total c t) = PointInfo.competitor t"
  "PointInfo.league (saved_total c t) = PointInfo.league t"
  "totals (saved_total c t) = True"
  "tally_of (saved_total c t) = tally_of t"
  by (simp_all add: saved_total_def initialise_def new_PointInfo_def tally_of_def)

lemma add_fields:
  "PointInfo.date (add t p) = PointInfo.date t"
  "PointInfo.competitor (add t p) = PointInfo.competitor t"
  "PointInfo.league (add t p) = PointInfo.league t"
  "totals (add t p) = totals t"
  "tally_of (add t p) = add (tally_of t) (tally_of p)"
  by (simp_all add: add_def tally_of_def)

lemma new_PointInfo_fields:
  "PointInfo.date (new_PointInfo l w c t) = c"
  "PointInfo.competitor (new_PointInfo l w c t) = w"
  "PointInfo.league (new_PointInfo l w c t) = l"
  "totals (new_PointInfo l w c t) = t"
  "tally_of (new_PointInfo l w c t) = zero_tally"
  by (simp_all add: new_PointInfo_def tally_of_def zero_tally_def)

lemma add_zero_tally:
  "add (tally_of t) zero_tally = tally_of t"
  "add zero_tally (tally_of t) = tally_of t"
  "add zero_tally zero_tally = zero_tally"
  by (simp_all add: add_def tally_of_def zero_tally_def)

lemma opt_tally_merge_day:
  "opt_tally (merge_day lg c t p) = add (opt_tally t) (opt_tally p)"
  by (cases t; cases p)
     (simp_all add: opt_tally_def merge_day_def add_fields new_PointInfo_fields add_zero_tally)

lemma merge_day_None: "merge_day lg c t p = None \<longleftrightarrow> t = None \<and> p = None"
  by (cases t; cases p) (simp_all add: merge_day_def)

lemma opt_tally_map_saved: "opt_tally (map_option (saved_total c) r) = opt_tally r"
  by (cases r) (simp_all add: opt_tally_def saved_total_fields)

lemma query_filter_out:
  assumes "d \<noteq> c \<or> \<not> t"
  shows "PointInfo_query d l t
           (filter (\<lambda>x. \<not> (PointInfo.date (snd x) = c \<and> PointInfo.league (snd x) = l
                            \<and> totals (snd x) = True)) store)
         = PointInfo_query d l t store"
  unfolding PointInfo_query_filter filter_filter
  by (rule filter_cong) (use assms in auto)

lemma query_filter_out_same:
  "PointInfo_query c l True
           (filter (\<lambda>x. \<not> (PointInfo.date (snd x) = c \<and> PointInfo.league (snd x) = l
                            \<and> totals (snd x) = True)) store) = []"
  unfolding PointInfo_query_filter filter_filter by simp

lemma query_new_totals_other:
  assumes "d \<noteq> c \<or> \<not> t"
  shows "PointInfo_query d l t (zip ks (map (saved_total c \<circ> snd) tots)) = []"
proof -
  have "\<forall>x \<in> set (zip ks (map (saved_total c \<circ> snd) tots)).
          \<not> (PointInfo.date (snd x) = d \<and> PointInfo.league (snd x) = l \<and> totals (snd x) = t)"
  proof
    fix x assume "x \<in> set (zip ks (map (saved_total c \<circ> snd) tots))"
    then have "snd x \<in> set (map (saved_total c \<circ> snd) tots)"
      using set_zip_rightD [of "fst x" "snd x" ks "map (saved_total c \<circ> snd) tots"] by simp
    then obtain y where "snd x = saved_total c (snd y)" by auto
    with assms show "\<not> (PointInfo.date (snd x) = d \<and> PointInfo.league (snd x) = l
                          \<and> totals (snd x) = t)"
      by (auto simp: saved_total_fields)
  qed
  then show ?thesis unfolding PointInfo_query_filter by (simp add: filter_empty_conv)
qed

lemma query_new_totals_same:
  assumes "\<forall>x \<in> set tots. PointInfo.league (snd x) = l"
  shows "PointInfo_query c l True (zip ks (map (saved_total c \<circ> snd) tots))
         = zip ks (map (saved_total c \<circ> snd) tots)"
proof -
  have "\<forall>x \<in> set (zip ks (map (saved_total c \<circ> snd) tots)).
          PointInfo.date (snd x) = c \<and> PointInfo.league (snd x) = l \<and> totals (snd x) = True"
  proof
    fix x assume "x \<in> set (zip ks (map (saved_total c \<circ> snd) tots))"
    then have "snd x \<in> set (map (saved_total c \<circ> snd) tots)"
      using set_zip_rightD [of "fst x" "snd x" ks "map (saved_total c \<circ> snd) tots"] by simp
    then obtain y where "y \<in> set tots" "snd x = saved_total c (snd y)" by auto
    with assms show "PointInfo.date (snd x) = c \<and> PointInfo.league (snd x) = l
                          \<and> totals (snd x) = True"
      by (auto simp: saved_total_fields)
  qed
  then show ?thesis unfolding PointInfo_query_filter by (simp add: filter_id_conv)
qed


lemma cummulate_day_unfold:
  "cummulate_day lg c (tots, store) =
     (case add_entered lg c (daily_at store (League.key lg) c)
             (remdups (map fst tots @ map fst (daily_at store (League.key lg) c))) tots of
        Inl e \<Rightarrow> Inl e
      | Inr tots' \<Rightarrow>
          Inr (tots', save_totals c tots'
                 (fold (\<lambda>(k, info) s. delete k s)
                    (PointInfo_query c (League.key lg) True store) store)))"
  by (simp add: cummulate_day_def daily_at_def Let_def)

lemma daily_at_Some:
  assumes "map_of (daily_at store l c) w = Some p"
  shows "PointInfo.competitor p = w \<and> PointInfo.league p = l"
proof -
  from by_nickname_Some [OF assms [unfolded daily_at_def]]
  obtain k where "PointInfo.competitor p = w" "(k, p) \<in> set (PointInfo_query c l False store)"
    by auto
  then show ?thesis by (simp add: PointInfo_query_mem)
qed

lemma totals_at_Some:
  assumes "map_of (totals_at store l c) w = Some p"
  shows "PointInfo.competitor p = w \<and> PointInfo.league p = l"
proof -
  from by_nickname_Some [OF assms [unfolded totals_at_def]]
  obtain k where "PointInfo.competitor p = w" "(k, p) \<in> set (PointInfo_query c l True store)"
    by auto
  then show ?thesis by (simp add: PointInfo_query_mem)
qed

lemma merge_day_Some:
  assumes "merge_day lg c t p = Some r"
    and "\<And>t'. t = Some t' \<Longrightarrow> PointInfo.competitor t' = w \<and> PointInfo.league t' = League.key lg"
    and "\<And>p'. p = Some p' \<Longrightarrow> PointInfo.competitor p' = w"
  shows "PointInfo.competitor r = w \<and> PointInfo.league r = League.key lg"
  using assms
  by (cases t; cases p) (auto simp: merge_day_def add_fields new_PointInfo_fields)

lemma cummulate_day_result:
  assumes dk: "distinct (map fst store)"
    and dt: "distinct (map fst tots)"
    and inv: "\<forall>x \<in> set tots. PointInfo.competitor (snd x) = fst x
                \<and> PointInfo.league (snd x) = League.key lg"
  shows "\<exists>tots' store'. cummulate_day lg c (tots, store) = Inr (tots', store')
    \<and> distinct (map fst store') \<and> distinct (map fst tots')
    \<and> (\<forall>x \<in> set tots'. PointInfo.competitor (snd x) = fst x
                \<and> PointInfo.league (snd x) = League.key lg)
    \<and> (\<forall>w. map_of tots' w =
           merge_day lg c (map_of tots w) (map_of (daily_at store (League.key lg) c) w))
    \<and> (\<forall>d t. d \<noteq> c \<or> \<not> t \<longrightarrow>
           PointInfo_query d (League.key lg) t store' = PointInfo_query d (League.key lg) t store)
    \<and> records_at store' c (League.key lg) True = map (saved_total c \<circ> snd) tots'"
proof -
  let ?l = "League.key lg"
  let ?pinfo = "daily_at store ?l c"
  let ?entered = "remdups (map fst tots @ map fst ?pinfo)"
  have ent: "\<forall>w \<in> set ?entered. map_of tots w \<noteq> None \<or> map_of ?pinfo w \<noteq> None"
    by (auto simp: map_of_eq_None_iff)
  from add_entered_result [OF distinct_remdups ent, of lg c]
  obtain tots' where
    ae: "add_entered lg c ?pinfo ?entered tots = Inr tots'"
    and m: "\<forall>w. map_of tots' w =
            (if w \<in> set ?entered then merge_day lg c (map_of tots w) (map_of ?pinfo w)
             else map_of tots w)"
    and dt': "distinct (map fst tots) \<longrightarrow> distinct (map fst tots')"
    by blast
  have m': "map_of tots' w = merge_day lg c (map_of tots w) (map_of ?pinfo w)" for w
  proof (cases "w \<in> set ?entered")
    case True
    with m show ?thesis by simp
  next
    case False
    then have "map_of tots w = None" "map_of ?pinfo w = None"
      by (auto simp: map_of_eq_None_iff)
    with m False show ?thesis by (simp add: merge_day_def)
  qed
  from dt dt' have dtots': "distinct (map fst tots')" by simp
  have inv': "\<forall>x \<in> set tots'. PointInfo.competitor (snd x) = fst x
                \<and> PointInfo.league (snd x) = ?l"
  proof
    fix x assume x: "x \<in> set tots'"
    obtain w r where wr: "x = (w, r)" by (cases x)
    from x wr dtots' have "map_of tots' w = Some r" by simp
    then have md: "merge_day lg c (map_of tots w) (map_of ?pinfo w) = Some r"
      by (simp add: m')
    have a: "PointInfo.competitor t' = w \<and> PointInfo.league t' = ?l"
      if "map_of tots w = Some t'" for t'
      using map_of_SomeD [OF that] inv by auto
    have b: "PointInfo.competitor p' = w" if "map_of ?pinfo w = Some p'" for p'
      using daily_at_Some [OF that] by simp
    from merge_day_Some [OF md a b] show "PointInfo.competitor (snd x) = fst x
                \<and> PointInfo.league (snd x) = ?l"
      by (simp add: wr)
  qed
  let ?store1 = "filter (\<lambda>x. \<not> (PointInfo.date (snd x) = c \<and> PointInfo.league (snd x) = ?l
                            \<and> totals (snd x) = True)) store"
  have s1: "fold (\<lambda>(k, info) s. delete k s) (PointInfo_query c ?l True store) store = ?store1"
    unfolding PointInfo_query_filter by (rule delete_matching [OF dk])
  from save_totals_append [of tots' ?store1 c] obtain ks where
    ks: "length ks = length tots'" "distinct ks" "set ks \<inter> fst ` set ?store1 = {}"
    and st: "save_totals c tots' ?store1 = ?store1 @ zip ks (map (saved_total c \<circ> snd) tots')"
    by blast
  let ?new = "zip ks (map (saved_total c \<circ> snd) tots')"
  let ?store' = "?store1 @ ?new"
  have res: "cummulate_day lg c (tots, store) = Inr (tots', ?store')"
    by (simp only: cummulate_day_unfold ae s1 st sum.case)
  have fstnew: "map fst ?new = ks" using ks(1) by simp
  have sndnew: "map snd ?new = map (saved_total c \<circ> snd) tots'" using ks(1) by simp
  have dk1: "distinct (map fst ?store1)" using dk by (rule distinct_map_filter)
  have dk': "distinct (map fst ?store')"
    using dk1 ks(2) ks(3) by (simp add: fstnew Int_commute)
  have q_other: "PointInfo_query d ?l t ?store' = PointInfo_query d ?l t store"
    if "d \<noteq> c \<or> \<not> t" for d t
    by (simp only: PointInfo_query_append query_filter_out [OF that]
        query_new_totals_other [OF that] append_Nil2)
  have lg': "\<forall>x \<in> set tots'. PointInfo.league (snd x) = ?l" using inv' by simp
  have q_same: "PointInfo_query c ?l True ?store' = ?new"
    by (simp only: PointInfo_query_append query_filter_out_same
        query_new_totals_same [OF lg'] append_Nil)
  have recs: "records_at ?store' c ?l True = map (saved_total c \<circ> snd) tots'"
    unfolding records_at_def q_same by (rule sndnew)
  from res dk' dtots' inv' m' q_other recs show ?thesis by blast
qed


lemma totals_at_saved:
  assumes recs: "records_at store c l True = map (saved_total c \<circ> snd) tots"
    and dt: "distinct (map fst tots)"
    and inv: "\<forall>x \<in> set tots. PointInfo.competitor (snd x) = fst x"
  shows "map_of (totals_at store l c) w = map_option (saved_total c) (map_of tots w)"
    and "distinct (map PointInfo.competitor (records_at store c l True))"
proof -
  let ?ps = "PointInfo_query c l True store"
  have a: "map (\<lambda>x. (PointInfo.competitor (snd x), snd x)) ?ps =
        map (\<lambda>r. (PointInfo.competitor r, r)) (map snd ?ps)"
    by simp
  have b: "map (\<lambda>r. (PointInfo.competitor r, r)) (map (saved_total c \<circ> snd) tots) =
        map (\<lambda>(k, v). (k, saved_total c v)) tots"
    using inv by (auto simp: saved_total_fields)
  have c: "map (\<lambda>x. (PointInfo.competitor (snd x), snd x)) ?ps =
        map (\<lambda>(k, v). (k, saved_total c v)) tots"
    unfolding a using recs b by (simp only: records_at_def)
  have d: "map fst (map (\<lambda>(k, v). (k, saved_total c v)) tots) = map fst tots"
    by (simp add: case_prod_unfold)
  have "map_of (totals_at store l c) = map_of (rev (map (\<lambda>(k, v). (k, saved_total c v)) tots))"
    unfolding totals_at_def by_nickname_map_of c ..
  also have "\<dots> = map_of (map (\<lambda>(k, v). (k, saved_total c v)) tots)"
    by (rule map_of_rev_distinct) (simp only: d dt)
  finally show "map_of (totals_at store l c) w = map_option (saved_total c) (map_of tots w)"
    by (simp add: map_of_map)
  have "map PointInfo.competitor (records_at store c l True) = map fst tots"
    unfolding recs using inv by (auto simp: saved_total_fields)
  with dt show "distinct (map PointInfo.competitor (records_at store c l True))"
    by simp
qed

declare cummulate_loop.simps [simp del]

lemma cummulate_loop_stop:
  "\<not> cur < end \<Longrightarrow> cummulate_loop lg end cur st = Inr st"
  by (subst cummulate_loop.simps) simp

lemma cummulate_loop_step:
  "cur < end \<Longrightarrow> cummulate_day lg (cur + 1) st = Inr st' \<Longrightarrow>
   cummulate_loop lg end cur st = cummulate_loop lg end (cur + 1) st'"
  by (subst cummulate_loop.simps) simp

lemma cummulate_loop_result:
  assumes "distinct (map fst store)"
    and "distinct (map fst tots)"
    and "\<forall>x \<in> set tots. PointInfo.competitor (snd x) = fst x
                \<and> PointInfo.league (snd x) = League.key lg"
    and "\<forall>w. opt_tally (map_of tots w) =
             opt_tally (map_of (totals_at store (League.key lg) cur) w)"
    and "\<forall>w. map_of tots w = None \<longleftrightarrow> map_of (totals_at store (League.key lg) cur) w = None"
  shows "\<exists>tots' store'. cummulate_loop lg end cur (tots, store) = Inr (tots', store')
     \<and> distinct (map fst store')
     \<and> (\<forall>d t. d \<le> cur \<or> \<not> t \<longrightarrow>
          PointInfo_query d (League.key lg) t store' = PointInfo_query d (League.key lg) t store)
     \<and> (\<forall>d. cur < d \<and> d \<le> end \<longrightarrow>
          (\<forall>w. tally_or_zero (totals_at store' (League.key lg) d) w =
                 add (tally_or_zero (totals_at store' (League.key lg) (d - 1)) w)
                     (tally_or_zero (daily_at store' (League.key lg) d) w))
          \<and> (\<forall>w. map_of (totals_at store' (League.key lg) d) w = None \<longleftrightarrow>
                 map_of (totals_at store' (League.key lg) (d - 1)) w = None
                 \<and> map_of (daily_at store' (League.key lg) d) w = None)
          \<and> distinct (map PointInfo.competitor (records_at store' d (League.key lg) True)))"
  using assms
proof (induction "nat (end - cur)" arbitrary: cur tots store)
  case 0
  then have "\<not> cur < end" by simp
  then have "cummulate_loop lg end cur (tots, store) = Inr (tots, store)"
    by (rule cummulate_loop_stop)
  moreover have "\<forall>d. \<not> (cur < d \<and> d \<le> end)" using \<open>\<not> cur < end\<close> by auto
  ultimately show ?case using "0.prems"(1) by blast
next
  case (Suc n)
  let ?l = "League.key lg"
  let ?c = "cur + 1"
  from Suc.hyps(2) have lt: "cur < end" by simp
  from cummulate_day_result [OF Suc.prems(1) Suc.prems(2) Suc.prems(3), of ?c]
  obtain tots1 store1 where
    day: "cummulate_day lg ?c (tots, store) = Inr (tots1, store1)"
    and dk1: "distinct (map fst store1)" and dt1: "distinct (map fst tots1)"
    and inv1: "\<forall>x \<in> set tots1. PointInfo.competitor (snd x) = fst x
                \<and> PointInfo.league (snd x) = ?l"
    and m1: "\<forall>w. map_of tots1 w = merge_day lg ?c (map_of tots w) (map_of (daily_at store ?l ?c) w)"
    and q1: "\<forall>d t. d \<noteq> ?c \<or> \<not> t \<longrightarrow>
           PointInfo_query d ?l t store1 = PointInfo_query d ?l t store"
    and r1: "records_at store1 ?c ?l True = map (saved_total ?c \<circ> snd) tots1"
    by blast
  have inv1c: "\<forall>x \<in> set tots1. PointInfo.competitor (snd x) = fst x" using inv1 by simp
  have t1: "map_of (totals_at store1 ?l ?c) w = map_option (saved_total ?c) (map_of tots1 w)" for w
    by (rule totals_at_saved(1) [OF r1 dt1 inv1c])
  have dr1: "distinct (map PointInfo.competitor (records_at store1 ?c ?l True))"
    by (rule totals_at_saved(2) [OF r1 dt1 inv1c])
  have rel1: "\<forall>w. opt_tally (map_of tots1 w) = opt_tally (map_of (totals_at store1 ?l ?c) w)"
    by (simp add: t1 opt_tally_map_saved)
  have dom1: "\<forall>w. map_of tots1 w = None \<longleftrightarrow> map_of (totals_at store1 ?l ?c) w = None"
    by (simp add: t1)
  have n: "n = nat (end - ?c)" using Suc.hyps(2) by simp
  from Suc.hyps(1) [OF n dk1 dt1 inv1 rel1 dom1]
  obtain tots' store' where
    loop: "cummulate_loop lg end ?c (tots1, store1) = Inr (tots', store')"
    and dk': "distinct (map fst store')"
    and q': "\<forall>d t. d \<le> ?c \<or> \<not> t \<longrightarrow>
          PointInfo_query d ?l t store' = PointInfo_query d ?l t store1"
    and law': "\<forall>d. ?c < d \<and> d \<le> end \<longrightarrow>
          (\<forall>w. tally_or_zero (totals_at store' ?l d) w =
                 add (tally_or_zero (totals_at store' ?l (d - 1)) w)
                     (tally_or_zero (daily_at store' ?l d) w))
          \<and> (\<forall>w. map_of (totals_at store' ?l d) w = None \<longleftrightarrow>
                 map_of (totals_at store' ?l (d - 1)) w = None
                 \<and> map_of (daily_at store' ?l d) w = None)
          \<and> distinct (map PointInfo.competitor (records_at store' d ?l True))"
    by blast
  have res: "cummulate_loop lg end cur (tots, store) = Inr (tots', store')"
    using cummulate_loop_step [OF lt day] loop by simp
  have q: "PointInfo_query d ?l t store' = PointInfo_query d ?l t store" if "d \<le> cur \<or> \<not> t" for d t
  proof -
    from that have a: "d \<le> ?c \<or> \<not> t" and b: "d \<noteq> ?c \<or> \<not> t" by auto
    from q' a have "PointInfo_query d ?l t store' = PointInfo_query d ?l t store1" by blast
    also from q1 b have "\<dots> = PointInfo_query d ?l t store" by blast
    finally show ?thesis .
  qed
  have qc: "PointInfo_query ?c ?l True store' = PointInfo_query ?c ?l True store1"
    using q' by blast
  have tc: "totals_at store' ?l ?c = totals_at store1 ?l ?c"
    by (simp only: totals_at_def qc)
  have tp: "totals_at store' ?l cur = totals_at store ?l cur"
    using q [of cur True] by (simp only: totals_at_def simp_thms order_refl)
  have dc: "daily_at store' ?l ?c = daily_at store ?l ?c"
    using q [of ?c False] by (simp only: daily_at_def simp_thms)
  have rc: "records_at store' ?c ?l True = records_at store1 ?c ?l True"
    by (simp only: records_at_def qc)
  have law_c: "tally_or_zero (totals_at store' ?l ?c) w =
                 add (tally_or_zero (totals_at store' ?l (?c - 1)) w)
                     (tally_or_zero (daily_at store' ?l ?c) w)" for w
  proof -
    have "tally_or_zero (totals_at store' ?l ?c) w = opt_tally (map_of tots1 w)"
      by (simp add: tally_or_zero_opt tc rel1)
    also have "\<dots> = add (opt_tally (map_of tots w)) (opt_tally (map_of (daily_at store ?l ?c) w))"
      by (simp add: m1 opt_tally_merge_day)
    also have "\<dots> = add (tally_or_zero (totals_at store' ?l (?c - 1)) w)
                     (tally_or_zero (daily_at store' ?l ?c) w)"
      using Suc.prems(4) by (simp add: tally_or_zero_opt tp dc)
    finally show ?thesis .
  qed
  have dom_c: "map_of (totals_at store' ?l ?c) w = None \<longleftrightarrow>
                 map_of (totals_at store' ?l (?c - 1)) w = None
                 \<and> map_of (daily_at store' ?l ?c) w = None" for w
  proof -
    have "map_of (totals_at store' ?l ?c) w = None \<longleftrightarrow> map_of tots1 w = None"
      by (simp add: tc dom1)
    also have "\<dots> \<longleftrightarrow> map_of tots w = None \<and> map_of (daily_at store ?l ?c) w = None"
      by (simp add: m1 merge_day_None)
    also have "\<dots> \<longleftrightarrow> map_of (totals_at store' ?l (?c - 1)) w = None
                 \<and> map_of (daily_at store' ?l ?c) w = None"
      using Suc.prems(5) by (simp add: tp dc)
    finally show ?thesis .
  qed
  have law: "(\<forall>w. tally_or_zero (totals_at store' ?l d) w =
                 add (tally_or_zero (totals_at store' ?l (d - 1)) w)
                     (tally_or_zero (daily_at store' ?l d) w))
          \<and> (\<forall>w. map_of (totals_at store' ?l d) w = None \<longleftrightarrow>
                 map_of (totals_at store' ?l (d - 1)) w = None
                 \<and> map_of (daily_at store' ?l d) w = None)
          \<and> distinct (map PointInfo.competitor (records_at store' d ?l True))"
    if "cur < d \<and> d \<le> end" for d
  proof (cases "d = ?c")
    case True
    show ?thesis unfolding True using law_c dom_c dr1 rc by simp
  next
    case False
    with that have "?c < d \<and> d \<le> end" by simp
    with law' show ?thesis by blast
  qed
  from res dk' q law show ?case by blast
qed


lemma by_nickname_keys:
  "fst ` set (by_nickname ps) = (PointInfo.competitor \<circ> snd) ` set ps"
proof -
  have "w \<in> fst ` set (by_nickname ps) \<longleftrightarrow> w \<in> (PointInfo.competitor \<circ> snd) ` set ps" for w
    using by_nickname_None [of ps w] map_of_eq_None_iff [of "by_nickname ps" w] by metis
  then show ?thesis by blast
qed

lemma totals_at_keys:
  "fst ` set (totals_at store l d) = PointInfo.competitor ` set (records_at store d l True)"
  by (simp add: totals_at_def records_at_def by_nickname_keys image_comp)

lemma daily_at_keys:
  "fst ` set (daily_at store l d) = PointInfo.competitor ` set (records_at store d l False)"
  by (simp add: daily_at_def records_at_def by_nickname_keys image_comp)

subsection \<open>\<^verbatim>\<open>cummulate\<close> always returns\<close>

lemma cummulate_day_total: "\<exists>st'. cummulate_day lg c st = Inr st'"
proof -
  obtain tots store where st: "st = (tots, store)" by (cases st)
  let ?pinfo = "daily_at store (League.key lg) c"
  let ?entered = "remdups (map fst tots @ map fst ?pinfo)"
  have ent: "\<forall>w \<in> set ?entered. map_of tots w \<noteq> None \<or> map_of ?pinfo w \<noteq> None"
    by (auto simp: map_of_eq_None_iff)
  from add_entered_result [OF distinct_remdups ent, of lg c]
  obtain tots' where "add_entered lg c ?pinfo ?entered tots = Inr tots'" by blast
  then show ?thesis by (simp only: st cummulate_day_unfold sum.case) blast
qed

lemma cummulate_loop_total: "\<exists>st'. cummulate_loop lg end cur st = Inr st'"
proof (induction "nat (end - cur)" arbitrary: cur st)
  case 0
  then have "\<not> cur < end" by simp
  then show ?case by (simp add: cummulate_loop_stop)
next
  case (Suc n)
  from Suc.hyps(2) have lt: "cur < end" by simp
  obtain st1 where day: "cummulate_day lg (cur + 1) st = Inr st1"
    using cummulate_day_total by blast
  have "n = nat (end - (cur + 1))" using Suc.hyps(2) by simp
  from Suc.hyps(1) [OF this, of st1] show ?case
    by (simp add: cummulate_loop_step [OF lt day])
qed

lemma cummulate_total:
  "\<exists>store'. cummulate lg store end =
     Inr (if League.date lg \<ge> end then lg else lg\<lparr>League.date := end\<rparr>, store')"
proof (cases "League.date lg \<ge> end")
  case True
  then show ?thesis by (simp add: cummulate_def)
next
  case False
  obtain tots' store' where
    "cummulate_loop lg end (League.date lg)
       (by_nickname (PointInfo_query (League.date lg) (League.key lg) True store), store)
     = Inr (tots', store')"
    using cummulate_loop_total [of lg "end" "League.date lg"] by (metis surj_pair)
  with False show ?thesis by (simp add: cummulate_def Let_def)
qed

subsection \<open>The prefix sums\<close>

lemma cummulate_result:
  assumes dk: "distinct (map fst store)" and lt: "League.date lg < end"
  shows "\<exists>store'. cummulate lg store end = Inr (lg\<lparr>League.date := end\<rparr>, store')
     \<and> distinct (map fst store')
     \<and> (\<forall>d t. d \<le> League.date lg \<or> \<not> t \<longrightarrow>
          PointInfo_query d (League.key lg) t store' = PointInfo_query d (League.key lg) t store)
     \<and> (\<forall>d. League.date lg < d \<and> d \<le> end \<longrightarrow>
          (\<forall>w. tally_or_zero (totals_at store' (League.key lg) d) w =
                 add (tally_or_zero (totals_at store' (League.key lg) (d - 1)) w)
                     (tally_or_zero (daily_at store' (League.key lg) d) w))
          \<and> (\<forall>w. map_of (totals_at store' (League.key lg) d) w = None \<longleftrightarrow>
                 map_of (totals_at store' (League.key lg) (d - 1)) w = None
                 \<and> map_of (daily_at store' (League.key lg) d) w = None)
          \<and> distinct (map PointInfo.competitor (records_at store' d (League.key lg) True)))"
proof -
  let ?l = "League.key lg"
  let ?cur = "League.date lg"
  let ?tots = "totals_at store ?l ?cur"
  have dt: "distinct (map fst ?tots)"
    unfolding totals_at_def by (rule by_nickname_distinct)
  have inv: "\<forall>x \<in> set ?tots. PointInfo.competitor (snd x) = fst x
                \<and> PointInfo.league (snd x) = ?l"
  proof
    fix x assume x: "x \<in> set ?tots"
    obtain w r where wr: "x = (w, r)" by (cases x)
    from x wr dt have "map_of ?tots w = Some r" by simp
    from totals_at_Some [OF this] show "PointInfo.competitor (snd x) = fst x
                \<and> PointInfo.league (snd x) = ?l"
      by (simp add: wr)
  qed
  from cummulate_loop_result [OF dk dt inv, of ?cur "end"]
  obtain tots' store' where
    loop: "cummulate_loop lg end ?cur (?tots, store) = Inr (tots', store')"
    and rest: "distinct (map fst store')"
      "\<forall>d t. d \<le> ?cur \<or> \<not> t \<longrightarrow>
          PointInfo_query d ?l t store' = PointInfo_query d ?l t store"
      "\<forall>d. ?cur < d \<and> d \<le> end \<longrightarrow>
          (\<forall>w. tally_or_zero (totals_at store' ?l d) w =
                 add (tally_or_zero (totals_at store' ?l (d - 1)) w)
                     (tally_or_zero (daily_at store' ?l d) w))
          \<and> (\<forall>w. map_of (totals_at store' ?l d) w = None \<longleftrightarrow>
                 map_of (totals_at store' ?l (d - 1)) w = None
                 \<and> map_of (daily_at store' ?l d) w = None)
          \<and> distinct (map PointInfo.competitor (records_at store' d ?l True))"
    by blast
  have "cummulate lg store end = Inr (lg\<lparr>League.date := end\<rparr>, store')"
    using lt loop by (simp add: cummulate_def Let_def totals_at_def)
  with rest show ?thesis by blast
qed

section \<open>The standings claims\<close>

lemma subtract_fields:
  "PointInfo.date (subtract e sp) = PointInfo.date e"
  "PointInfo.competitor (subtract e sp) = PointInfo.competitor e"
  "PointInfo.league (subtract e sp) = PointInfo.league e"
  "totals (subtract e sp) = totals e"
  "tally_of (subtract e sp) =
     \<lparr>perfect = perfect e - perfect sp,
      goal_difference = goal_difference e - goal_difference sp,
      goals = goals e - goals sp, result = result e - result sp,
      count = count e - count sp\<rparr>"
  by (simp_all add: subtract_def tally_of_def)

lemma stats_result:
  "\<exists>lg' store'. cummulate lg store end = Inr (lg', store')
     \<and> League.key lg' = League.key lg
     \<and> League.competition lg' = League.competition lg
     \<and> stats today lg store start (Some end) =
         Inr (lg', store',
              stats_results
                (case start of None \<Rightarrow> [] | Some s \<Rightarrow> totals_at store' (League.key lg) s)
                (PointInfo_query end (League.key lg) True store'))"
proof -
  let ?lg' = "if League.date lg \<ge> end then lg else lg\<lparr>League.date := end\<rparr>"
  from cummulate_total [of lg store "end"] obtain store' where
    c: "cummulate lg store end = Inr (?lg', store')" by blast
  have k: "League.key ?lg' = League.key lg" by simp
  have cn: "League.competition ?lg' = League.competition lg" by simp
  have bn: "by_nickname [] = []" by (simp add: by_nickname_def)
  have "stats today lg store start (Some end) =
         Inr (?lg', store',
              stats_results
                (case start of None \<Rightarrow> [] | Some s \<Rightarrow> totals_at store' (League.key lg) s)
                (PointInfo_query end (League.key lg) True store'))"
    by (cases start) (simp_all add: stats_def c Let_def totals_at_def bn)
  with c k cn show ?thesis by blast
qed

lemma stats_results_competitor:
  "map PointInfo.competitor (stats_results startinfo epoints) =
     map (PointInfo.competitor \<circ> snd) epoints"
  by (simp add: stats_results_def case_prod_unfold subtract_fields split: option.split)

lemma stats_results_all2:
  "list_all2 (\<lambda>r e. r = (case map_of startinfo (PointInfo.competitor e) of
                            None \<Rightarrow> e | Some sp \<Rightarrow> subtract e sp))
     (stats_results startinfo epoints) (map snd epoints)"
  by (simp add: stats_results_def list_all2_map1 list_all2_map2 case_prod_unfold
      list_all2_same split: option.split)

text \<open>
  Claim C1. For a league whose cursor is before \<open>end\<close>, \<^verbatim>\<open>cummulate\<close> returns, the cursor
  is \<open>end\<close> afterwards, and for every date \<open>d\<close> after the old cursor up to \<open>end\<close> and every
  competitor the stored total at \<open>d\<close> is the total at \<open>d - 1\<close> plus the daily record at
  \<open>d\<close>, field by field, a missing record counting as the zero tally. There is a total
  record at \<open>d\<close> exactly for the competitors with a total at \<open>d - 1\<close> or a daily record at
  \<open>d\<close>, and only one each. The daily records and the totals up to the old cursor are
  left as they were. The datastore is one in which no two entities share a key.
\<close>

theorem C1_prefix_sum:
  assumes "distinct (map fst store)" and "League.date lg < end"
  shows "\<exists>lg' store'. cummulate lg store end = Inr (lg', store')
     \<and> League.date lg' = end
     \<and> (\<forall>d who. League.date lg < d \<and> d \<le> end \<longrightarrow>
          tally_or_zero (totals_at store' (League.key lg) d) who =
            add (tally_or_zero (totals_at store' (League.key lg) (d - 1)) who)
                (tally_or_zero (daily_at store' (League.key lg) d) who)
          \<and> (who \<in> fst ` set (totals_at store' (League.key lg) d) \<longleftrightarrow>
               who \<in> fst ` set (totals_at store' (League.key lg) (d - 1))
               \<or> who \<in> fst ` set (daily_at store' (League.key lg) d))
          \<and> distinct (map PointInfo.competitor (records_at store' d (League.key lg) True)))
     \<and> (\<forall>d t. d \<le> League.date lg \<or> \<not> t \<longrightarrow>
          records_at store' d (League.key lg) t = records_at store d (League.key lg) t)"
proof -
  let ?l = "League.key lg"
  from cummulate_result [OF assms] obtain store' where
    c: "cummulate lg store end = Inr (lg\<lparr>League.date := end\<rparr>, store')"
    and q: "\<forall>d t. d \<le> League.date lg \<or> \<not> t \<longrightarrow>
          PointInfo_query d ?l t store' = PointInfo_query d ?l t store"
    and law: "\<forall>d. League.date lg < d \<and> d \<le> end \<longrightarrow>
          (\<forall>w. tally_or_zero (totals_at store' ?l d) w =
                 add (tally_or_zero (totals_at store' ?l (d - 1)) w)
                     (tally_or_zero (daily_at store' ?l d) w))
          \<and> (\<forall>w. map_of (totals_at store' ?l d) w = None \<longleftrightarrow>
                 map_of (totals_at store' ?l (d - 1)) w = None
                 \<and> map_of (daily_at store' ?l d) w = None)
          \<and> distinct (map PointInfo.competitor (records_at store' d ?l True))"
    by blast
  have keys: "who \<in> fst ` set (totals_at store' ?l d) \<longleftrightarrow>
               who \<in> fst ` set (totals_at store' ?l (d - 1))
               \<or> who \<in> fst ` set (daily_at store' ?l d)"
    if "League.date lg < d \<and> d \<le> end" for d who
  proof -
    from law that have "map_of (totals_at store' ?l d) who = None \<longleftrightarrow>
                 map_of (totals_at store' ?l (d - 1)) who = None
                 \<and> map_of (daily_at store' ?l d) who = None" by blast
    then show ?thesis by (simp only: map_of_eq_None_iff) blast
  qed
  have recs: "records_at store' d ?l t = records_at store d ?l t"
    if "d \<le> League.date lg \<or> \<not> t" for d t
    using q that by (simp only: records_at_def)
  have "League.date (lg\<lparr>League.date := end\<rparr>) = end" by simp
  with c law keys recs show ?thesis by blast
qed

theorem C1_prefix_sum_witness:
  "distinct (map fst ex_store) \<and> League.date ex_league < 12
   \<and> cummulate ex_league ex_store 12 = Inr (ex_league\<lparr>League.date := 12\<rparr>, ex_store_12)
   \<and> tally_or_zero (totals_at ex_store_12 1 12) ''A'' =
        add (tally_or_zero (totals_at ex_store_12 1 11) ''A'')
            (tally_or_zero (daily_at ex_store_12 1 12) ''A'')
   \<and> tally_or_zero (totals_at ex_store_12 1 11) ''A'' =
        \<lparr>perfect = 0, goal_difference = 0, goals = 5, result = 0, count = 1\<rparr>
   \<and> tally_or_zero (totals_at ex_store_12 1 12) ''A'' =
        \<lparr>perfect = 0, goal_difference = 0, goals = 8, result = 0, count = 2\<rparr>
   \<and> tally_or_zero (totals_at ex_store_12 1 12) ''B'' =
        \<lparr>perfect = 0, goal_difference = 0, goals = 2, result = 0, count = 1\<rparr>"
proof -
  have d: "distinct (map fst ex_store)" by code_simp
  have lt: "League.date ex_league < 12" by code_simp
  have k: "League.key ex_league = 1" by code_simp
  have c0: "cummulate ex_league ex_store 12 = Inr (ex_league\<lparr>League.date := 12\<rparr>, ex_store_12)"
    by code_simp
  from C1_prefix_sum [OF d lt] obtain lg' store' where
    c: "cummulate ex_league ex_store 12 = Inr (lg', store')"
    and law: "\<forall>d who. League.date ex_league < d \<and> d \<le> 12 \<longrightarrow>
          tally_or_zero (totals_at store' (League.key ex_league) d) who =
            add (tally_or_zero (totals_at store' (League.key ex_league) (d - 1)) who)
                (tally_or_zero (daily_at store' (League.key ex_league) d) who)
          \<and> (who \<in> fst ` set (totals_at store' (League.key ex_league) d) \<longleftrightarrow>
               who \<in> fst ` set (totals_at store' (League.key ex_league) (d - 1))
               \<or> who \<in> fst ` set (daily_at store' (League.key ex_league) d))
          \<and> distinct (map PointInfo.competitor
                (records_at store' d (League.key ex_league) True))"
    by (elim exE conjE)
  from c c0 have s: "store' = ex_store_12" by simp
  have "League.date ex_league < 12 \<and> (12::int) \<le> 12" using lt by simp
  with law have "tally_or_zero (totals_at store' (League.key ex_league) 12) ''A'' =
            add (tally_or_zero (totals_at store' (League.key ex_league) (12 - 1)) ''A'')
                (tally_or_zero (daily_at store' (League.key ex_league) 12) ''A'')"
    by blast
  then have l12: "tally_or_zero (totals_at ex_store_12 1 12) ''A'' =
            add (tally_or_zero (totals_at ex_store_12 1 11) ''A'')
                (tally_or_zero (daily_at ex_store_12 1 12) ''A'')"
    by (simp only: s k) simp
  have v1: "tally_or_zero (totals_at ex_store_12 1 11) ''A'' =
        \<lparr>perfect = 0, goal_difference = 0, goals = 5, result = 0, count = 1\<rparr>"
    by code_simp
  have v2: "tally_or_zero (totals_at ex_store_12 1 12) ''A'' =
        \<lparr>perfect = 0, goal_difference = 0, goals = 8, result = 0, count = 2\<rparr>"
    by code_simp
  have v3: "tally_or_zero (totals_at ex_store_12 1 12) ''B'' =
        \<lparr>perfect = 0, goal_difference = 0, goals = 2, result = 0, count = 1\<rparr>"
    by code_simp
  from d lt c0 l12 v1 v2 v3 show ?thesis by (intro conjI)
qed


text \<open>
  Claim C2. \<^verbatim>\<open>stats(start, end)\<close> first runs \<^verbatim>\<open>cummulate\<close> up to \<open>end\<close>, which always
  returns, and then answers from the store so obtained: one result for each total record
  at \<open>end\<close>, in their order and under their nicknames, being that record less the total
  record of the same nickname at \<open>start\<close>, field by field, or the record itself when
  there is no total at \<open>start\<close> for the nickname (or no \<open>start\<close>). So the competitors in
  the result are exactly those with a total record at \<open>end\<close>, and one with a total at
  \<open>start\<close> but none at \<open>end\<close> is not in it.
\<close>

theorem C2_stats_range:
  "\<exists>lg' store' results.
     cummulate lg store end = Inr (lg', store')
     \<and> stats today lg store start (Some end) = Inr (lg', store', results)
     \<and> map PointInfo.competitor results =
         map PointInfo.competitor (records_at store' end (League.key lg) True)
     \<and> list_all2
         (\<lambda>r e. r = (case (case start of
                              None \<Rightarrow> None
                            | Some s \<Rightarrow> map_of (totals_at store' (League.key lg) s)
                                                (PointInfo.competitor e)) of
                        None \<Rightarrow> e
                      | Some sp \<Rightarrow> subtract e sp))
         results (records_at store' end (League.key lg) True)
     \<and> PointInfo.competitor ` set results = fst ` set (totals_at store' (League.key lg) end)
     \<and> (\<forall>who s. start = Some s \<and> who \<in> fst ` set (totals_at store' (League.key lg) s)
            \<and> who \<notin> fst ` set (totals_at store' (League.key lg) end)
          \<longrightarrow> who \<notin> PointInfo.competitor ` set results)
     \<and> (\<forall>(e::PointInfo) (sp::PointInfo). tally_of (subtract e sp) =
            \<lparr>perfect = perfect e - perfect sp,
             goal_difference = goal_difference e - goal_difference sp,
             goals = goals e - goals sp, result = result e - result sp,
             count = count e - count sp\<rparr>)"
proof -
  let ?l = "League.key lg"
  from stats_result [of lg store "end" today start] obtain lg' store' where
    c: "cummulate lg store end = Inr (lg', store')"
    and st: "stats today lg store start (Some end) =
         Inr (lg', store',
              stats_results
                (case start of None \<Rightarrow> [] | Some s \<Rightarrow> totals_at store' ?l s)
                (PointInfo_query end ?l True store'))"
    by blast
  let ?startinfo = "case start of None \<Rightarrow> [] | Some s \<Rightarrow> totals_at store' ?l s"
  let ?results = "stats_results ?startinfo (PointInfo_query end ?l True store')"
  have nick: "map PointInfo.competitor ?results =
         map PointInfo.competitor (records_at store' end ?l True)"
    by (simp add: stats_results_competitor records_at_def)
  have look: "map_of ?startinfo w =
      (case start of None \<Rightarrow> None | Some s \<Rightarrow> map_of (totals_at store' ?l s) w)" for w
    by (cases start) simp_all
  have all2: "list_all2
         (\<lambda>r e. r = (case (case start of
                              None \<Rightarrow> None
                            | Some s \<Rightarrow> map_of (totals_at store' ?l s)
                                                (PointInfo.competitor e)) of
                        None \<Rightarrow> e
                      | Some sp \<Rightarrow> subtract e sp))
         ?results (records_at store' end ?l True)"
    using stats_results_all2 [of ?startinfo "PointInfo_query end ?l True store'"]
    by (simp only: look records_at_def)
  have "set (map PointInfo.competitor ?results) =
        set (map PointInfo.competitor (records_at store' end ?l True))"
    by (simp only: nick)
  then have keys: "PointInfo.competitor ` set ?results = fst ` set (totals_at store' ?l end)"
    by (simp add: totals_at_keys)
  have absent: "\<forall>who s. start = Some s \<and> who \<in> fst ` set (totals_at store' ?l s)
            \<and> who \<notin> fst ` set (totals_at store' ?l end)
          \<longrightarrow> who \<notin> PointInfo.competitor ` set ?results"
    using keys by blast
  have fw: "\<forall>(e::PointInfo) (sp::PointInfo). tally_of (subtract e sp) =
            \<lparr>perfect = perfect e - perfect sp,
             goal_difference = goal_difference e - goal_difference sp,
             goals = goals e - goals sp, result = result e - result sp,
             count = count e - count sp\<rparr>"
    by (simp add: subtract_fields)
  show ?thesis
    by (intro exI conjI) (rule c st nick all2 keys absent fw)+
qed


theorem C2_stats_range_witness:
  "stats 0 ex_league ex_store (Some 11) (Some 12) =
     Inr (ex_league\<lparr>League.date := 12\<rparr>, ex_store_12,
          [(ex_info ''A'' 12 3 True), (ex_info ''B'' 12 2 True)])
   \<and> map PointInfo.competitor (records_at ex_store_12 12 1 True) = [''A'', ''B'']
   \<and> PointInfo.competitor ` set [(ex_info ''A'' 12 3 True), (ex_info ''B'' 12 2 True)] =
       fst ` set (totals_at ex_store_12 1 12)"
proof -
  have k: "League.key ex_league = 1" by code_simp
  have st: "stats 0 ex_league ex_store (Some 11) (Some 12) =
     Inr (ex_league\<lparr>League.date := 12\<rparr>, ex_store_12,
          [(ex_info ''A'' 12 3 True), (ex_info ''B'' 12 2 True)])"
    by code_simp
  from C2_stats_range [of ex_league ex_store 12 0 "Some 11"] obtain lg' store' results where
    s: "stats 0 ex_league ex_store (Some 11) (Some 12) = Inr (lg', store', results)"
    and n: "map PointInfo.competitor results =
         map PointInfo.competitor (records_at store' 12 (League.key ex_league) True)"
    and ks: "PointInfo.competitor ` set results =
         fst ` set (totals_at store' (League.key ex_league) 12)"
    by (elim exE conjE)
  from s st have e: "store' = ex_store_12"
    "results = [(ex_info ''A'' 12 3 True), (ex_info ''B'' 12 2 True)]" by simp_all
  have c: "map PointInfo.competitor [(ex_info ''A'' 12 3 True), (ex_info ''B'' 12 2 True)]
        = [''A'', ''B'']"
    by (simp add: ex_info_def)
  from n have a: "map PointInfo.competitor (records_at ex_store_12 12 1 True) = [''A'', ''B'']"
    by (simp only: e k c)
  from ks have b: "PointInfo.competitor ` set [(ex_info ''A'' 12 3 True), (ex_info ''B'' 12 2 True)] =
       fst ` set (totals_at ex_store_12 1 12)"
    by (simp only: e k)
  from st a b show ?thesis by (intro conjI)
qed


text \<open>
  Claim C7, as the code has it. \<^verbatim>\<open>create_table\<close> and the fast table page return one
  entry per tally, in the order the tallies are iterated (the dictionary of
  \<^verbatim>\<open>process_predictions\<close>, the records of \<^verbatim>\<open>stats\<close>); neither sorts the list. Each entry
  carries the sort key (total, perfect, goal difference, goals, nickname) of its tally,
  the total being the sum of the four scoring fields. In \<^verbatim>\<open>create_table\<close> the nicknames
  are distinct, so that any two entries are strictly ordered by their keys, one way or
  the other.
\<close>

theorem C7_sort_keys:
  "(\<exists>rows dts.
      create_table all_games now lg start end = Inr \<lparr>scores = rows, details = dts\<rparr>
      \<and> map nickname rows =
          map fst (fst (process_predictions
            (create_table_results all_games lg
               (case start of None \<Rightarrow> fromordinal 730120 | Some s \<Rightarrow> s)
               (case end of None \<Rightarrow> now | Some e \<Rightarrow> e)) lg True))
      \<and> distinct (map nickname rows)
      \<and> (\<forall>r \<in> set rows. sort r = sort_key (nickname r) (points r)
            \<and> fst (sort r) = total r)
      \<and> (\<forall>r1 \<in> set rows. \<forall>r2 \<in> set rows. nickname r1 \<noteq> nickname r2 \<longrightarrow>
            sort_before (sort r1) (sort r2) \<or> sort_before (sort r2) (sort r1))
      \<and> (\<forall>r \<in> set rows. \<not> sort_before (sort r) (sort r)))
   \<and> (\<exists>lg' store' pinfo rows.
        stats today lg store fstart (Some fend) = Inr (lg', store', pinfo)
        \<and> FastTablePage_get today lg store fstart fend =
              Inr (lg', store', \<lparr>scores = rows, details = []\<rparr>)
        \<and> map nickname rows = map PointInfo.competitor pinfo
        \<and> map sort rows = map (\<lambda>r. sort_key (PointInfo.competitor r) r) pinfo
        \<and> (\<forall>r \<in> set rows. sort r = sort_key (nickname r) (points r)
              \<and> fst (sort r) = total r))"
proof -
  let ?start = "case start of None \<Rightarrow> fromordinal 730120 | Some s \<Rightarrow> s"
  let ?end = "case end of None \<Rightarrow> now | Some e \<Rightarrow> e"
  let ?pp = "process_predictions (create_table_results all_games lg ?start ?end) lg True"
  let ?mk = "\<lambda>x. \<lparr>total = goals (snd x) + goal_difference (snd x) + perfect (snd x)
                          + result (snd x),
          sort = sort_key (fst x) (snd x), points = set_total (snd x), nickname = fst x\<rparr>"
  let ?rows = "map ?mk (fst ?pp)"
  have ct: "create_table all_games now lg start end = Inr \<lparr>scores = ?rows, details = snd ?pp\<rparr>"
    by (simp add: create_table_def Let_def table_rows_eq case_prod_unfold)
  have nick: "map nickname ?rows = map fst (fst ?pp)"
    by simp
  have dist: "distinct (map nickname ?rows)"
    unfolding nick by (rule process_predictions_distinct)
  have key: "\<forall>r \<in> set ?rows. sort r = sort_key (nickname r) (points r) \<and> fst (sort r) = total r"
    by (auto simp: sort_key_def set_total_def Let_def)
  have lin: "\<forall>r1 \<in> set ?rows. \<forall>r2 \<in> set ?rows. nickname r1 \<noteq> nickname r2 \<longrightarrow>
            sort_before (sort r1) (sort r2) \<or> sort_before (sort r2) (sort r1)"
  proof (intro ballI impI)
    fix r1 r2 assume "r1 \<in> set ?rows" "r2 \<in> set ?rows" "nickname r1 \<noteq> nickname r2"
    moreover have "snd (snd (snd (snd (sort r)))) = nickname r" if "r \<in> set ?rows" for r
      using that by (auto simp: sort_key_def)
    ultimately have "snd (snd (snd (snd (sort r1)))) \<noteq> snd (snd (snd (snd (sort r2))))"
      by simp
    then show "sort_before (sort r1) (sort r2) \<or> sort_before (sort r2) (sort r1)"
      by (rule sort_before_linear)
  qed
  have slow: "\<exists>rows dts.
      create_table all_games now lg start end = Inr \<lparr>scores = rows, details = dts\<rparr>
      \<and> map nickname rows = map fst (fst ?pp)
      \<and> distinct (map nickname rows)
      \<and> (\<forall>r \<in> set rows. sort r = sort_key (nickname r) (points r) \<and> fst (sort r) = total r)
      \<and> (\<forall>r1 \<in> set rows. \<forall>r2 \<in> set rows. nickname r1 \<noteq> nickname r2 \<longrightarrow>
            sort_before (sort r1) (sort r2) \<or> sort_before (sort r2) (sort r1))
      \<and> (\<forall>r \<in> set rows. \<not> sort_before (sort r) (sort r))"
    using ct nick dist key lin sort_before_irrefl by blast
  from stats_result [of lg store fend today fstart] obtain lg' store' pinfo where
    st: "stats today lg store fstart (Some fend) = Inr (lg', store', pinfo)"
    by blast
  let ?cname = "name (League.competition lg')"
  let ?frows = "map (\<lambda>r. \<lparr>total = goals r + goal_difference r + perfect r + result r,
          sort = sort_key (PointInfo.competitor r) r, points = to_points ?cname r,
          nickname = PointInfo.competitor r\<rparr>) pinfo"
  have f1: "FastTablePage_get today lg store fstart fend =
            Inr (lg', store', \<lparr>scores = ?frows, details = []\<rparr>)"
    by (simp add: FastTablePage_get_def st fast_rows_eq)
  have f2: "map nickname ?frows = map PointInfo.competitor pinfo"
    by simp
  have f3: "map sort ?frows = map (\<lambda>r. sort_key (PointInfo.competitor r) r) pinfo"
    by simp
  have f4: "\<forall>r \<in> set ?frows. sort r = sort_key (nickname r) (points r)
                 \<and> fst (sort r) = total r"
    by (auto simp: sort_key_def to_points_fields)
  have fast: "\<exists>lg' store' pinfo rows.
        stats today lg store fstart (Some fend) = Inr (lg', store', pinfo)
        \<and> FastTablePage_get today lg store fstart fend =
              Inr (lg', store', \<lparr>scores = rows, details = []\<rparr>)
        \<and> map nickname rows = map PointInfo.competitor pinfo
        \<and> map sort rows = map (\<lambda>r. sort_key (PointInfo.competitor r) r) pinfo
        \<and> (\<forall>r \<in> set rows. sort r = sort_key (nickname r) (points r)
              \<and> fst (sort r) = total r)"
    by (intro exI conjI) (rule st f1 f2 f3 f4)+
  from slow fast show ?thesis by (rule conjI)
qed

text \<open>
  The claim as stated fails on both paths. The slow table of the 2-1 game lists A, with
  total 0, before B, with total 6; the fast table of days 11 to 12 lists A, with total 2,
  before B, with total 3.
\<close>

theorem C7_counterexample:
  "map_sum id (map sort \<circ> scores)
      (create_table [ex_game] 0 ex_league (Some (fromordinal 11)) (Some (fromordinal 12)))
     = Inr [(0, 0, 0, 0, ''A''), (6, 1, 1, 2, ''B'')]
   \<and> map_sum id (ranked \<circ> scores)
      (create_table [ex_game] 0 ex_league (Some (fromordinal 11)) (Some (fromordinal 12)))
     = Inr False
   \<and> map_sum id (map sort \<circ> scores \<circ> snd \<circ> snd)
      (FastTablePage_get 0 ex_league ex_store_b (Some 11) 12)
     = Inr [(2, 0, 0, 2, ''A''), (3, 0, 0, 3, ''B'')]
   \<and> map_sum id (ranked \<circ> scores \<circ> snd \<circ> snd)
      (FastTablePage_get 0 ex_league ex_store_b (Some 11) 12)
     = Inr False"
  by code_simp

theorem C7_sort_keys_witness:
  "\<exists>rows dts.
      create_table [ex_game] 0 ex_league (Some (fromordinal 11)) (Some (fromordinal 12)) =
         Inr \<lparr>scores = rows, details = dts\<rparr>
      \<and> map nickname rows = [''A'', ''B'']
      \<and> map sort rows = [(0, 0, 0, 0, ''A''), (6, 1, 1, 2, ''B'')]
      \<and> distinct (map nickname rows)
      \<and> (\<forall>r \<in> set rows. sort r = sort_key (nickname r) (points r) \<and> fst (sort r) = total r)"
proof -
  let ?ct = "create_table [ex_game] 0 ex_league (Some (fromordinal 11)) (Some (fromordinal 12))"
  from C7_sort_keys [of "[ex_game]" 0 ex_league "Some (fromordinal 11)" "Some (fromordinal 12)"
      0 ex_store_b "Some 11" 12]
  obtain rows dts where
    ct: "?ct = Inr \<lparr>scores = rows, details = dts\<rparr>"
    and d: "distinct (map nickname rows)"
    and k: "\<forall>r \<in> set rows. sort r = sort_key (nickname r) (points r) \<and> fst (sort r) = total r"
    by (elim exE conjE)
  have "map_sum id (map nickname \<circ> scores) ?ct = Inr [''A'', ''B'']"
    by code_simp
  with ct have n: "map nickname rows = [''A'', ''B'']" by simp
  have "map_sum id (map sort \<circ> scores) ?ct = Inr [(0, 0, 0, 0, ''A''), (6, 1, 1, 2, ''B'')]"
    by code_simp
  with ct have s: "map sort rows = [(0, 0, 0, 0, ''A''), (6, 1, 1, 2, ''B'')]" by simp
  show ?thesis
    by (intro exI conjI) (rule ct n s d k)+
qed

end
